theory Spec2Isabelle
  imports Complex_Main
begin

section \<open>Strings\<close>

text \<open>
  JavaScript strings are modelled by \<^typ>\<open>string\<close>. The character classes the source
  names in its regular expressions are ASCII (\<open>[a-z0-9]\<close>), and \<open>toLowerCase\<close> is
  modelled on the ASCII letters; every other character is left as it is.
\<close>

definition upperCase :: string where
  "upperCase = ''ABCDEFGHIJKLMNOPQRSTUVWXYZ''"

definition lowerCase :: string where
  "lowerCase = ''abcdefghijklmnopqrstuvwxyz''"

definition decimalDigits :: string where
  "decimalDigits = ''0123456789''"

definition toLowerCase :: "string \<Rightarrow> string" where
  "toLowerCase s =
     map (\<lambda>c. case map_of (zip upperCase lowerCase) c of Some l \<Rightarrow> l | None \<Rightarrow> c) s"

text \<open>The class \<open>[a-z0-9]\<close>.\<close>

definition isAlnum :: "char \<Rightarrow> bool" where
  "isAlnum c \<longleftrightarrow> c \<in> set (lowerCase @ decimalDigits)"

definition isDigit :: "char \<Rightarrow> bool" where
  "isDigit c \<longleftrightarrow> c \<in> set decimalDigits"

text \<open>White space and line terminators, as \<open>trim\<close> and \<open>parseFloat\<close> strip them
  (the ASCII ones: TAB, LF, VT, FF, CR, SP).\<close>

definition isWhiteSpace :: "char \<Rightarrow> bool" where
  "isWhiteSpace c \<longleftrightarrow> c \<in> set [CHR 0x09, CHR 0x0A, CHR 0x0B, CHR 0x0C, CHR 0x0D, CHR '' '']"

definition trim :: "string \<Rightarrow> string" where
  "trim s = rev (dropWhile isWhiteSpace (rev (dropWhile isWhiteSpace s)))"

text \<open>\<open>s.replace(/[^a-z0-9]+/g, '-')\<close>: scanning from the left, a character of the class
  is copied; at any other character the match takes the whole run (the quantifier is
  greedy) and one hyphen replaces it.\<close>

function replaceNonAlnumRuns :: "string \<Rightarrow> string" where
  "replaceNonAlnumRuns [] = []"
| "replaceNonAlnumRuns (c # cs) =
     (if isAlnum c then c # replaceNonAlnumRuns cs
      else CHR ''-'' # replaceNonAlnumRuns (dropWhile (\<lambda>x. \<not> isAlnum x) cs))"
  by pat_completeness auto
termination
  by (relation "measure length") (auto simp: less_Suc_eq_le length_dropWhile_le)

text \<open>\<open>s.replace(/^-|-$/g, '')\<close>: the first alternative matches one hyphen at the start,
  the second one hyphen at the end of what is left.\<close>

definition stripEdgeHyphens :: "string \<Rightarrow> string" where
  "stripEdgeHyphens s =
     (let s1 = (case s of c # cs \<Rightarrow> if c = CHR ''-'' then cs else s | [] \<Rightarrow> s)
      in if s1 \<noteq> [] \<and> last s1 = CHR ''-'' then butlast s1 else s1)"

text \<open>The path segment of the EDHREC URL (line 53 of content.js).\<close>

definition slug :: "string \<Rightarrow> string" where
  "slug cardName = stripEdgeHyphens (replaceNonAlnumRuns (toLowerCase cardName))"

definition edhrecUrlOf :: "string \<Rightarrow> string" where
  "edhrecUrlOf cardName = ''https://edhrec.com/cards/'' @ slug cardName"

text \<open>The slug as the specification words it: lower-case the name, replace every run of
  non-alphanumeric characters with a single hyphen, trim leading and trailing hyphens.\<close>

fun collapseRuns :: "bool \<Rightarrow> string \<Rightarrow> string" where
  "collapseRuns inRun [] = []"
| "collapseRuns inRun (c # cs) =
     (if isAlnum c then c # collapseRuns False cs
      else if inRun then collapseRuns True cs
      else CHR ''-'' # collapseRuns True cs)"

definition trimHyphens :: "string \<Rightarrow> string" where
  "trimHyphens s =
     rev (dropWhile (\<lambda>c. c = CHR ''-'') (rev (dropWhile (\<lambda>c. c = CHR ''-'') s)))"

definition slug_spec :: "string \<Rightarrow> string" where
  "slug_spec cardName = trimHyphens (collapseRuns False (toLowerCase cardName))"

text \<open>\<open>encodeURIComponent\<close>: every byte outside the unreserved set becomes \<open>%XX\<close>.\<close>

definition hexDigits :: string where
  "hexDigits = ''0123456789ABCDEF''"

definition uriUnreserved :: string where
  "uriUnreserved = upperCase @ lowerCase @ decimalDigits @ ''-_.!~*'' @ [CHR 0x27] @ ''()''"

definition percentEncode :: "char \<Rightarrow> string" where
  "percentEncode c =
     (let n = (of_char c :: nat)
      in [CHR ''%'', hexDigits ! (n div 16), hexDigits ! (n mod 16)])"

definition encodeURIComponent :: "string \<Rightarrow> string" where
  "encodeURIComponent s =
     concat (map (\<lambda>c. if c \<in> set uriUnreserved then [c] else percentEncode c) s)"

section \<open>Numbers\<close>

text \<open>
  A JavaScript number is NaN, an infinity or a finite value. Finite values are modelled
  by exact rationals: the rounding of IEEE doubles is not modelled, and the two zeros are
  one value (the source does not tell them apart).
\<close>

datatype number = NaN | Finite rat | PosInfinity | NegInfinity

definition isNaN :: "number \<Rightarrow> bool" where
  "isNaN n \<longleftrightarrow> n = NaN"

text \<open>The operator \<open><\<close> on numbers: false whenever an operand is NaN.\<close>

fun lt :: "number \<Rightarrow> number \<Rightarrow> bool" where
  "lt (Finite a) (Finite b) = (a < b)"
| "lt (Finite a) PosInfinity = True"
| "lt NegInfinity (Finite b) = True"
| "lt NegInfinity PosInfinity = True"
| "lt _ _ = False"

text \<open>Truthiness of a number: zero and NaN are falsy.\<close>

definition truthyNumber :: "number \<Rightarrow> bool" where
  "truthyNumber n \<longleftrightarrow> n \<noteq> NaN \<and> n \<noteq> Finite 0"

definition digitVal :: "char \<Rightarrow> nat" where
  "digitVal c = of_char c - 48"

definition natOfDigits :: "string \<Rightarrow> nat" where
  "natOfDigits ds = foldl (\<lambda>n c. 10 * n + digitVal c) 0 ds"

text \<open>The optional exponent part of a decimal literal: \<open>e\<close> or \<open>E\<close>, an optional sign
  and at least one digit; anything else is not part of the literal.\<close>

definition exponentPart :: "string \<Rightarrow> int" where
  "exponentPart r =
     (case r of
        [] \<Rightarrow> 0
      | c # r1 \<Rightarrow>
          if c = CHR ''e'' \<or> c = CHR ''E'' then
            (let (neg, r2) =
                   (case r1 of
                      [] \<Rightarrow> (False, r1)
                    | d # r3 \<Rightarrow>
                        if d = CHR ''-'' then (True, r3)
                        else if d = CHR ''+'' then (False, r3)
                        else (False, r1));
                 ds = takeWhile isDigit r2
             in if ds = [] then 0
                else if neg then - int (natOfDigits ds) else int (natOfDigits ds))
          else 0)"

definition scale10 :: "rat \<Rightarrow> int \<Rightarrow> rat" where
  "scale10 m e = (if 0 \<le> e then m * 10 ^ nat e else m / 10 ^ nat (- e))"

text \<open>\<open>parseFloat\<close>: leading white space is dropped, then the longest prefix that is a
  decimal literal (sign, \<open>Infinity\<close>, or digits with an optional fraction and exponent)
  is the value; when there is no such prefix the result is NaN.\<close>

definition parseFloat :: "string \<Rightarrow> number" where
  "parseFloat s =
     (let t = dropWhile isWhiteSpace s;
          (neg, u) =
            (case t of
               [] \<Rightarrow> (False, t)
             | c # r \<Rightarrow>
                 if c = CHR ''-'' then (True, r)
                 else if c = CHR ''+'' then (False, r)
                 else (False, t))
      in if take 8 u = ''Infinity'' then (if neg then NegInfinity else PosInfinity)
         else
           (let ip = takeWhile isDigit u;
                r1 = dropWhile isDigit u;
                (fp, r2) =
                  (case r1 of
                     [] \<Rightarrow> ([], r1)
                   | c # r \<Rightarrow>
                       if c = CHR ''.'' then (takeWhile isDigit r, dropWhile isDigit r)
                       else ([], r1))
            in if ip = [] \<and> fp = [] then NaN
               else
                 (let m = scale10 (of_nat (natOfDigits (ip @ fp)) / 10 ^ length fp)
                            (exponentPart r2)
                  in Finite (if neg then - m else m))))"

function showNat :: "nat \<Rightarrow> string" where
  "showNat n =
     (if n < 10 then [decimalDigits ! n]
      else showNat (n div 10) @ [decimalDigits ! (n mod 10)])"
  by pat_completeness auto
termination
  by (relation "measure id") auto

text \<open>\<open>x.toFixed(2)\<close>: the sign, then the integer nearest to \<open>100 * |x|\<close> (the larger one
  on a tie) written with two digits after the point. (For magnitudes of \<open>10^21\<close> and
  above JavaScript switches to exponent notation, which is outside this model.)\<close>

definition toFixed2 :: "number \<Rightarrow> string" where
  "toFixed2 x =
     (case x of
        NaN \<Rightarrow> ''NaN''
      | PosInfinity \<Rightarrow> ''Infinity''
      | NegInfinity \<Rightarrow> ''-Infinity''
      | Finite q \<Rightarrow>
          (let n = nat \<lfloor>\<bar>q\<bar> * 100 + 1 / 2\<rfloor>
           in (if q < 0 then ''-'' else '''') @ showNat (n div 100) @ ''.'' @
              [decimalDigits ! (n mod 100 div 10), decimalDigits ! (n mod 10)]))"

section \<open>The catalog's answer\<close>

text \<open>
  A printing as the search endpoint returns it. The price facets are decimal strings or
  null; the map of purchase links, and its \<open>tcgplayer\<close> entry, may be missing;
  \<open>scryfall_uri\<close> is a string on every card object.
\<close>

record prices =
  usd :: "string option"
  usd_foil :: "string option"
  usd_etched :: "string option"

record purchase_uris =
  tcgplayer :: "string option"

record card =
  prices :: "prices option"
  purchase_uris :: "purchase_uris option"
  scryfall_uri :: string

text \<open>The body of a response: \<open>response.json()\<close> rejects (or yields a value whose
  \<open>data\<close> cannot be read), or yields an object without a \<open>data\<close> list, or one with the
  list of printings.\<close>

datatype body = Malformed | NoList | Listing "card list"

record response =
  ok :: bool
  status :: nat
  body :: body

text \<open>\<open>fetch\<close> maps the request URL to a response; \<open>None\<close> is the rejected promise of an
  unreachable network.\<close>

type_synonym fetch = "string \<Rightarrow> response option"

datatype error = NetworkError | StatusError nat | BodyError

section \<open>The page\<close>

text \<open>
  The DOM is a store of nodes addressed by their index. A text node has the tag
  \<open>#text\<close> and carries its characters in \<open>nodeData\<close>; every other node is an element.
  Content attributes (\<open>class\<close>, \<open>alt\<close>, \<open>title\<close>, \<open>data-name\<close>, \<open>data-price-added\<close>,
  \<open>href\<close>, ...) are a map from names to values; \<open>selectedValue\<close> is the \<open>value\<close>
  property of a form control.
\<close>

type_synonym ref = nat

record node =
  tagName :: string
  attrs :: "string \<rightharpoonup> string"
  selectedValue :: "string option"
  nodeData :: string
  childNodes :: "ref list"
  parentNode :: "ref option"

type_synonym dom = "node list"

record priceResult =
  price :: "number option"
  purchaseUrl :: "string option"
  scryfallUrl :: "string option"
  edhrecUrl :: string

text \<open>
  The state of the page's script: the DOM with the root element of the document, the
  cache \<open>priceCache\<close>, and two logs that record the effects on the outside: the URLs
  requested with \<open>fetch\<close> and the entries written with \<open>console.error\<close>. The cache is
  the object \<open>priceCache\<close> read as a map from its own keys; the property names that every
  object inherits (\<open>constructor\<close>, \<open>toString\<close>, ...) are not card names and are left out.
\<close>

record state =
  dom :: dom
  root :: ref
  priceCache :: "string \<rightharpoonup> priceResult"
  requests :: "string list"
  console :: "(string \<times> error) list"

section \<open>getCardPrice\<close>

definition truthyString :: "string option \<Rightarrow> bool" where
  "truthyString v \<longleftrightarrow> (case v of None \<Rightarrow> False | Some s \<Rightarrow> s \<noteq> [])"

text \<open>\<open>card.prices?.usd\<close> and its two siblings.\<close>

definition facet :: "(prices \<Rightarrow> string option) \<Rightarrow> card \<Rightarrow> string option" where
  "facet f c = (case prices c of None \<Rightarrow> None | Some p \<Rightarrow> f p)"

text \<open>\<open>card.purchase_uris?.tcgplayer || card.scryfall_uri\<close>.\<close>

definition purchaseUrlOf :: "card \<Rightarrow> string" where
  "purchaseUrlOf c =
     (case purchase_uris c of
        None \<Rightarrow> scryfall_uri c
      | Some p \<Rightarrow> if truthyString (tcgplayer p) then the (tcgplayer p) else scryfall_uri c)"

text \<open>The array \<open>prices\<close> of lines 35 to 39: the three facets in their fixed order, each
  with the URL of the printing.\<close>

definition pricesOf :: "card \<Rightarrow> (string option \<times> string) list" where
  "pricesOf c =
     [(facet usd c, purchaseUrlOf c),
      (facet usd_foil c, purchaseUrlOf c),
      (facet usd_etched c, purchaseUrlOf c)]"

text \<open>The body of the inner loop (lines 42 to 48) on the pair
  \<open>(cheapestPrice, cheapestUrl)\<close>.\<close>

definition considerPrice ::
  "number option \<times> string option \<Rightarrow> string option \<times> string \<Rightarrow> number option \<times> string option"
  where
  "considerPrice best entry =
     (case entry of (v, url) \<Rightarrow>
        if truthyString v then
          (let p = parseFloat (the v)
           in if \<not> isNaN p \<and> (case fst best of None \<Rightarrow> True | Some c \<Rightarrow> lt p c)
              then (Some p, Some url)
              else best)
        else best)"

text \<open>The body of the outer loop (lines 30 to 49) on
  \<open>(cheapestPrice, cheapestUrl, scryfallUrl)\<close>.\<close>

definition considerCard ::
  "(number option \<times> string option) \<times> string option \<Rightarrow> card \<Rightarrow>
   (number option \<times> string option) \<times> string option"
  where
  "considerCard acc c =
     (case acc of (best, sUrl) \<Rightarrow>
        (foldl considerPrice best (pricesOf c),
         if truthyString sUrl then sUrl else Some (scryfall_uri c)))"

definition scanPrintings ::
  "card list \<Rightarrow> (number option \<times> string option) \<times> string option" where
  "scanPrintings cs = foldl considerCard ((None, None), None) cs"

definition buildResult :: "string \<Rightarrow> card list \<Rightarrow> priceResult" where
  "buildResult cardName cs =
     (case scanPrintings cs of ((cheapestPrice, cheapestUrl), sUrl) \<Rightarrow>
        \<lparr>price = cheapestPrice, purchaseUrl = cheapestUrl, scryfallUrl = sUrl,
         edhrecUrl = edhrecUrlOf cardName\<rparr>)"

definition searchUrl :: "string \<Rightarrow> string" where
  "searchUrl cardName =
     ''https://api.scryfall.com/cards/search?unique=prints&q=!'' @ [CHR 0x22] @
     encodeURIComponent cardName @ [CHR 0x22]"

text \<open>The \<open>try\<close> block (lines 11 to 62) once the request is answered: \<open>Inl\<close> is the
  exception that reaches the \<open>catch\<close>; \<open>Inr None\<close> is the early \<open>return null\<close> of line 21;
  \<open>Inr (Some r)\<close> is the result that lines 61 and 62 store and return.\<close>

definition readAnswer :: "string \<Rightarrow> response option \<Rightarrow> error + priceResult option" where
  "readAnswer cardName answer =
     (case answer of
        None \<Rightarrow> Inl NetworkError
      | Some r \<Rightarrow>
          if \<not> ok r then Inl (StatusError (status r))
          else
            (case body r of
               Malformed \<Rightarrow> Inl BodyError
             | NoList \<Rightarrow> Inr None
             | Listing cs \<Rightarrow> if cs = [] then Inr None else Inr (Some (buildResult cardName cs))))"

definition errorMessage :: "string \<Rightarrow> string" where
  "errorMessage cardName =
     ''Moxfield Pricer - Error fetching price for '' @ [CHR 0x22] @ cardName @ [CHR 0x22] @ '':''"

text \<open>\<open>getCardPrice\<close>, run from the call to its return: the value returned (\<open>None\<close> is
  \<open>null\<close>) and the state it leaves.\<close>

definition getCardPrice :: "fetch \<Rightarrow> state \<Rightarrow> string \<Rightarrow> priceResult option \<times> state" where
  "getCardPrice fetch s cardName =
     (case priceCache s cardName of
        Some cached \<Rightarrow> (Some cached, s)
      | None \<Rightarrow>
          (let s1 = s\<lparr>requests := requests s @ [searchUrl cardName]\<rparr>
           in case readAnswer cardName (fetch (searchUrl cardName)) of
                Inl e \<Rightarrow> (None, s1\<lparr>console := console s1 @ [(errorMessage cardName, e)]\<rparr>)
              | Inr None \<Rightarrow> (None, s1)
              | Inr (Some result) \<Rightarrow>
                  (Some result, s1\<lparr>priceCache := (priceCache s1)(cardName \<mapsto> result)\<rparr>)))"

section \<open>The DOM\<close>

definition isElement :: "node \<Rightarrow> bool" where
  "isElement nd \<longleftrightarrow> tagName nd \<noteq> ''#text''"

text \<open>The descendants of a node in document order. The store is finite, and a tree in it
  is never deeper than the store is long, so the recursion is cut at that depth.\<close>

fun descendants :: "nat \<Rightarrow> dom \<Rightarrow> ref \<Rightarrow> ref list" where
  "descendants 0 d r = []"
| "descendants (Suc k) d r =
     (if r < length d then concat (map (\<lambda>c. c # descendants k d c) (childNodes (d ! r)))
      else [])"

definition subtree :: "dom \<Rightarrow> ref \<Rightarrow> ref list" where
  "subtree d r = descendants (length d) d r"

text \<open>\<open>element.querySelector(sel)\<close>: the first descendant element that matches.\<close>

definition querySelector :: "dom \<Rightarrow> ref \<Rightarrow> (node \<Rightarrow> bool) \<Rightarrow> ref option" where
  "querySelector d r sel =
     find (\<lambda>x. x < length d \<and> isElement (d ! x) \<and> sel (d ! x)) (subtree d r)"

text \<open>\<open>document.querySelectorAll(sel)\<close>: every matching element of the document, the root
  element included.\<close>

definition querySelectorAll :: "dom \<Rightarrow> ref \<Rightarrow> (node \<Rightarrow> bool) \<Rightarrow> ref list" where
  "querySelectorAll d rt sel =
     filter (\<lambda>x. x < length d \<and> isElement (d ! x) \<and> sel (d ! x)) (rt # subtree d rt)"

text \<open>\<open>element.textContent\<close>: the characters of all text nodes below the element.\<close>

definition textContent :: "dom \<Rightarrow> ref \<Rightarrow> string" where
  "textContent d r =
     concat (map (\<lambda>x. nodeData (d ! x))
       (filter (\<lambda>x. x < length d \<and> \<not> isElement (d ! x)) (subtree d r)))"

definition parentElement :: "dom \<Rightarrow> ref \<Rightarrow> ref option" where
  "parentElement d r =
     (case parentNode (d ! r) of
        None \<Rightarrow> None
      | Some p \<Rightarrow> if p < length d \<and> isElement (d ! p) then Some p else None)"

definition nextSibling :: "dom \<Rightarrow> ref \<Rightarrow> ref option" where
  "nextSibling d r =
     (case parentNode (d ! r) of
        None \<Rightarrow> None
      | Some p \<Rightarrow>
          (case dropWhile (\<lambda>x. x \<noteq> r) (childNodes (d ! p)) of
             _ # n # _ \<Rightarrow> Some n
           | _ \<Rightarrow> None))"

text \<open>The reflected properties \<open>alt\<close> and \<open>title\<close> are the empty string when the attribute
  is missing; an entry of \<open>dataset\<close> is undefined then.\<close>

definition alt :: "node \<Rightarrow> string" where
  "alt nd = (case attrs nd ''alt'' of None \<Rightarrow> [] | Some a \<Rightarrow> a)"

definition title :: "node \<Rightarrow> string" where
  "title nd = (case attrs nd ''title'' of None \<Rightarrow> [] | Some a \<Rightarrow> a)"

definition newNode :: "string \<Rightarrow> string \<Rightarrow> node" where
  "newNode tag chars =
     \<lparr>tagName = tag, attrs = Map.empty, selectedValue = None, nodeData = chars,
      childNodes = [], parentNode = None\<rparr>"

definition createElement :: "string \<Rightarrow> dom \<Rightarrow> ref \<times> dom" where
  "createElement tag d = (length d, d @ [newNode tag []])"

definition createTextNode :: "string \<Rightarrow> dom \<Rightarrow> ref \<times> dom" where
  "createTextNode chars d = (length d, d @ [newNode ''#text'' chars])"

definition setAttribute :: "ref \<Rightarrow> string \<Rightarrow> string \<Rightarrow> dom \<Rightarrow> dom" where
  "setAttribute r k v d = d[r := (d ! r)\<lparr>attrs := (attrs (d ! r))(k \<mapsto> v)\<rparr>]"

text \<open>A node that is inserted leaves its old parent first.\<close>

definition detach :: "ref \<Rightarrow> dom \<Rightarrow> dom" where
  "detach c d =
     (case parentNode (d ! c) of
        None \<Rightarrow> d
      | Some p \<Rightarrow>
          (let d1 = d[p := (d ! p)\<lparr>childNodes := remove1 c (childNodes (d ! p))\<rparr>]
           in d1[c := (d1 ! c)\<lparr>parentNode := None\<rparr>]))"

definition appendChild :: "ref \<Rightarrow> ref \<Rightarrow> dom \<Rightarrow> dom" where
  "appendChild p c d =
     (let d1 = detach c d;
          d2 = d1[p := (d1 ! p)\<lparr>childNodes := childNodes (d1 ! p) @ [c]\<rparr>]
      in d2[c := (d2 ! c)\<lparr>parentNode := Some p\<rparr>])"

text \<open>\<open>parent.insertBefore(c, reference)\<close>; with a null reference the node is appended.\<close>

definition insertBefore :: "ref \<Rightarrow> ref \<Rightarrow> ref option \<Rightarrow> dom \<Rightarrow> dom" where
  "insertBefore p c reference d =
     (case reference of
        None \<Rightarrow> appendChild p c d
      | Some n \<Rightarrow>
          (let d1 = detach c d;
               kids = childNodes (d1 ! p);
               d2 = d1[p := (d1 ! p)\<lparr>childNodes :=
                      takeWhile (\<lambda>x. x \<noteq> n) kids @ c # dropWhile (\<lambda>x. x \<noteq> n) kids\<rparr>]
           in d2[c := (d2 ! c)\<lparr>parentNode := Some p\<rparr>]))"

text \<open>Assigning \<open>textContent\<close> replaces the children by one text node (by none for the
  empty string).\<close>

definition setTextContent :: "ref \<Rightarrow> string \<Rightarrow> dom \<Rightarrow> dom" where
  "setTextContent r chars d =
     (let d1 = foldr detach (childNodes (d ! r)) d
      in if chars = [] then d1
         else (case createTextNode chars d1 of (t, d2) \<Rightarrow> appendChild r t d2))"

text \<open>Selectors. \<open>img\<close>; \<open>[class*="name"], [class*="card-name"]\<close>; \<open>[class*="name"]\<close>;
  \<open>.img-card:not([data-price-added])\<close>.\<close>

fun contains :: "string \<Rightarrow> string \<Rightarrow> bool" where
  "contains sub [] = (sub = [])"
| "contains sub (c # cs) = (take (length sub) (c # cs) = sub \<or> contains sub cs)"

fun tokens :: "string \<Rightarrow> string \<Rightarrow> string list" where
  "tokens cur [] = (if cur = [] then [] else [cur])"
| "tokens cur (c # cs) =
     (if isWhiteSpace c then (if cur = [] then tokens [] cs else cur # tokens [] cs)
      else tokens (cur @ [c]) cs)"

definition classContains :: "string \<Rightarrow> node \<Rightarrow> bool" where
  "classContains sub nd =
     (case attrs nd ''class'' of None \<Rightarrow> False | Some c \<Rightarrow> contains sub c)"

definition imgSelector :: "node \<Rightarrow> bool" where
  "imgSelector nd \<longleftrightarrow> tagName nd = ''IMG''"

definition nameSelector :: "node \<Rightarrow> bool" where
  "nameSelector nd \<longleftrightarrow> classContains ''name'' nd \<or> classContains ''card-name'' nd"

definition cardSelector :: "node \<Rightarrow> bool" where
  "cardSelector nd \<longleftrightarrow>
     (case attrs nd ''class'' of None \<Rightarrow> False | Some c \<Rightarrow> ''img-card'' \<in> set (tokens [] c)) \<and>
     attrs nd ''data-price-added'' = None"

section \<open>getCardName\<close>

text \<open>\<open>img.alt || img.title || img.dataset.name\<close>.\<close>

definition nameOfImg :: "node \<Rightarrow> string option" where
  "nameOfImg nd =
     (if alt nd \<noteq> [] then Some (alt nd)
      else if title nd \<noteq> [] then Some (title nd)
      else attrs nd ''data-name'')"

definition invalidNames :: "string list" where
  "invalidNames = [''front'', ''back'', ''transform'']"

text \<open>\<open>None\<close> stands for both \<open>null\<close> and \<open>undefined\<close>: the source tests the name for
  truthiness only.\<close>

definition getCardName :: "dom \<Rightarrow> ref \<Rightarrow> string option" where
  "getCardName d element =
     (let cardName0 = (if tagName (d ! element) = ''IMG'' then nameOfImg (d ! element) else None);
          cardName1 =
            (if \<not> truthyString cardName0 then
               (case querySelector d element imgSelector of
                  None \<Rightarrow> cardName0
                | Some img \<Rightarrow> nameOfImg (d ! img))
             else cardName0);
          cardName2 =
            (if \<not> truthyString cardName1 then
               (let nameElement =
                      (case querySelector d element nameSelector of
                         Some x \<Rightarrow> Some x
                       | None \<Rightarrow>
                           (case parentElement d element of
                              None \<Rightarrow> None
                            | Some p \<Rightarrow> querySelector d p (classContains ''name'')))
                in map_option (\<lambda>x. trim (textContent d x)) nameElement)
             else cardName1)
      in if truthyString cardName2 \<and> toLowerCase (the cardName2) \<in> set invalidNames then None
         else cardName2)"

section \<open>addPriceToCard\<close>

definition createLink :: "string \<Rightarrow> string \<Rightarrow> string \<Rightarrow> dom \<Rightarrow> ref \<times> dom" where
  "createLink href cls label d =
     (case createElement ''A'' d of (a, d1) \<Rightarrow>
        (a, setTextContent a label
              (setAttribute a ''class'' cls
                (setAttribute a ''rel'' ''noopener noreferrer''
                  (setAttribute a ''target'' ''_blank''
                    (setAttribute a ''href'' href d1))))))"

text \<open>Lines 115 to 147: the container with the price link and, when their URLs are truthy,
  the two reference links. A null \<open>purchaseUrl\<close> would be written as the string
  \<open>null\<close>.\<close>

definition buildLinks :: "priceResult \<Rightarrow> number \<Rightarrow> dom \<Rightarrow> ref \<times> dom" where
  "buildLinks result p d =
     (case createElement ''DIV'' d of (linksContainer, d1) \<Rightarrow>
        (let d2 = setAttribute linksContainer ''class'' ''moxfield-card-links'' d1;
             d3 = (case createLink
                          (case purchaseUrl result of None \<Rightarrow> ''null'' | Some u \<Rightarrow> u)
                          ''moxfield-card-price'' (''$'' @ toFixed2 p) d2 of
                     (priceLink, e) \<Rightarrow> appendChild linksContainer priceLink e);
             d4 = (if truthyString (scryfallUrl result) then
                     (case createLink (the (scryfallUrl result)) ''moxfield-card-link''
                             ''Scryfall'' d3 of
                        (scryfallLink, e) \<Rightarrow> appendChild linksContainer scryfallLink e)
                   else d3);
             d5 = (if edhrecUrl result \<noteq> [] then
                     (case createLink (edhrecUrl result) ''moxfield-card-link'' ''EDHREC'' d4 of
                        (edhrecLink, e) \<Rightarrow> appendChild linksContainer edhrecLink e)
                   else d4)
         in (linksContainer, d5)))"

text \<open>Lines 149 to 153.\<close>

definition placeLinks :: "ref \<Rightarrow> ref \<Rightarrow> dom \<Rightarrow> dom" where
  "placeLinks cardElement linksContainer d =
     (case parentElement d cardElement of
        Some p \<Rightarrow> insertBefore p linksContainer (nextSibling d cardElement) d
      | None \<Rightarrow> appendChild cardElement linksContainer d)"

text \<open>Lines 113 to 154: what \<open>addPriceToCard\<close> does with the resolved result.\<close>

definition annotate :: "state \<Rightarrow> ref \<Rightarrow> priceResult option \<Rightarrow> state" where
  "annotate s cardElement result =
     (case result of
        None \<Rightarrow> s
      | Some r \<Rightarrow>
          (case price r of
             None \<Rightarrow> s
           | Some p \<Rightarrow>
               if truthyNumber p then
                 (case buildLinks r p (dom s) of
                    (linksContainer, d) \<Rightarrow> s\<lparr>dom := placeLinks cardElement linksContainer d\<rparr>)
               else s))"

definition markProcessed :: "ref \<Rightarrow> dom \<Rightarrow> dom" where
  "markProcessed cardElement d = setAttribute cardElement ''data-price-added'' ''true'' d"

text \<open>\<open>addPriceToCard\<close>, run from the call to the end of its continuation. The resolution
  is taken as one step: what other code does to the page while the request is pending is
  not part of the model.\<close>

definition addPriceToCard :: "fetch \<Rightarrow> state \<Rightarrow> ref \<Rightarrow> state" where
  "addPriceToCard fetch s cardElement =
     (if truthyString (attrs (dom s ! cardElement) ''data-price-added'') then s
      else
        (let s1 = s\<lparr>dom := markProcessed cardElement (dom s)\<rparr>;
             cardName = getCardName (dom s1) cardElement
         in if \<not> truthyString cardName then s1
            else (case getCardPrice fetch s1 (the cardName) of
                    (result, s2) \<Rightarrow> annotate s2 cardElement result)))"

section \<open>processCards\<close>

text \<open>\<open>document.getElementById("viewMode")\<close> and the test of its value.\<close>

definition isSpoilerViewMode :: "state \<Rightarrow> bool" where
  "isSpoilerViewMode s =
     (case querySelectorAll (dom s) (root s) (\<lambda>nd. attrs nd ''id'' = Some ''viewMode'') of
        [] \<Rightarrow> False
      | viewModeElement # _ \<Rightarrow> selectedValue (dom s ! viewModeElement) = Some ''spoiler'')"

text \<open>
  \<open>forEach\<close> calls \<open>addPriceToCard\<close> on every selected element before any of the calls
  gets past its \<open>await\<close>. So each call is split where it suspends. The first part runs
  inside \<open>forEach\<close>: the marker is tested and set, the name is extracted, and
  \<open>getCardPrice\<close> runs up to its return on a cache hit or up to \<open>await fetch\<close>, with the
  request sent. What is left of a call is a resolution: the element with the cached
  result, or the element with the name whose request is pending.
\<close>

datatype resolution = Cached ref priceResult | Requested ref string

definition isCached :: "resolution \<Rightarrow> bool" where
  "isCached p = (case p of Cached el r \<Rightarrow> True | Requested el n \<Rightarrow> False)"

definition startCard :: "state \<times> resolution list \<Rightarrow> ref \<Rightarrow> state \<times> resolution list" where
  "startCard acc cardElement =
     (case acc of (s, waiting) \<Rightarrow>
        if truthyString (attrs (dom s ! cardElement) ''data-price-added'') then (s, waiting)
        else
          (let s1 = s\<lparr>dom := markProcessed cardElement (dom s)\<rparr>;
               cardName = getCardName (dom s1) cardElement
           in if \<not> truthyString cardName then (s1, waiting)
              else
                (case priceCache s1 (the cardName) of
                   Some cached \<Rightarrow> (s1, waiting @ [Cached cardElement cached])
                 | None \<Rightarrow>
                     (s1\<lparr>requests := requests s1 @ [searchUrl (the cardName)]\<rparr>,
                      waiting @ [Requested cardElement (the cardName)]))))"

text \<open>\<open>getCardPrice\<close> from the answer of the request to its return (lines 14 to 66).\<close>

definition receiveAnswer :: "fetch \<Rightarrow> state \<Rightarrow> string \<Rightarrow> priceResult option \<times> state" where
  "receiveAnswer fetch s cardName =
     (case readAnswer cardName (fetch (searchUrl cardName)) of
        Inl e \<Rightarrow> (None, s\<lparr>console := console s @ [(errorMessage cardName, e)]\<rparr>)
      | Inr None \<Rightarrow> (None, s)
      | Inr (Some result) \<Rightarrow> (Some result, s\<lparr>priceCache := (priceCache s)(cardName \<mapsto> result)\<rparr>))"

text \<open>The second part of a call: the result arrives and the element is annotated.\<close>

definition finishCard :: "fetch \<Rightarrow> state \<Rightarrow> resolution \<Rightarrow> state" where
  "finishCard fetch s p =
     (case p of
        Cached cardElement cached \<Rightarrow> annotate s cardElement (Some cached)
      | Requested cardElement cardName \<Rightarrow>
          (case receiveAnswer fetch s cardName of
             (result, s1) \<Rightarrow> annotate s1 cardElement result))"

text \<open>
  \<open>processCards\<close>, with everything it starts run to the end. The calls that hit the cache
  resume first, as soon as \<open>processCards\<close> has returned; the others resume when their
  answers arrive, which is taken to be in the order of the requests, each handled to its
  end before the next.
\<close>

definition processCards :: "fetch \<Rightarrow> state \<Rightarrow> state" where
  "processCards fetch s =
     (if \<not> isSpoilerViewMode s then s
      else
        (case foldl startCard (s, []) (querySelectorAll (dom s) (root s) cardSelector) of
           (s1, waiting) \<Rightarrow>
             foldl (finishCard fetch) s1
               (filter isCached waiting @ filter (\<lambda>p. \<not> isCached p) waiting)))"

section \<open>The mutation observer\<close>

text \<open>
  Time is counted in the units of \<open>setTimeout\<close>. The event loop keeps the pending timers
  in the order they were set, each with the time it is due; the script sets timers of one
  delay only, so this is also the order they are due in. \<open>observerTimeout\<close> is the property
  \<open>observer.timeout\<close>; \<open>scans\<close> records the times at which a timer called \<open>processCards\<close>.
\<close>

record loop =
  pending :: "(nat \<times> nat) list"
  nextTimer :: nat
  observerTimeout :: "nat option"
  scans :: "nat list"

definition setTimeout :: "nat \<Rightarrow> nat \<Rightarrow> loop \<Rightarrow> nat \<times> loop" where
  "setTimeout now delay l =
     (nextTimer l,
      l\<lparr>pending := pending l @ [(nextTimer l, now + delay)], nextTimer := Suc (nextTimer l)\<rparr>)"

text \<open>\<open>clearTimeout\<close> of an undefined or expired handle does nothing.\<close>

definition clearTimeout :: "nat option \<Rightarrow> loop \<Rightarrow> loop" where
  "clearTimeout timer l =
     (case timer of
        None \<Rightarrow> l
      | Some i \<Rightarrow> l\<lparr>pending := filter (\<lambda>(j, due). j \<noteq> i) (pending l)\<rparr>)"

text \<open>The callback of the observer (lines 183 to 186).\<close>

definition onMutation :: "nat \<Rightarrow> loop \<Rightarrow> loop" where
  "onMutation now l =
     (case setTimeout now 300 (clearTimeout (observerTimeout l) l) of
        (timer, l1) \<Rightarrow> l1\<lparr>observerTimeout := Some timer\<rparr>)"

text \<open>The timers that are due run: each calls \<open>processCards\<close>.\<close>

definition runTimers :: "nat \<Rightarrow> loop \<Rightarrow> loop" where
  "runTimers now l =
     l\<lparr>scans := scans l @ map snd (filter (\<lambda>(j, due). due \<le> now) (pending l)),
       pending := filter (\<lambda>(j, due). \<not> due \<le> now) (pending l)\<rparr>"

text \<open>A notification arrives: the timers due by then have run, then the callback runs.\<close>

definition notify :: "loop \<Rightarrow> nat \<Rightarrow> loop" where
  "notify l now = onMutation now (runTimers now l)"

text \<open>No further notification arrives: the pending timers run when they are due.\<close>

definition drain :: "loop \<Rightarrow> loop" where
  "drain l = l\<lparr>scans := scans l @ map snd (pending l), pending := []\<rparr>"

definition idle :: loop where
  "idle = \<lparr>pending = [], nextTimer = 0, observerTimeout = None, scans = []\<rparr>"

text \<open>The times at which \<open>processCards\<close> is called when the notifications arrive at the
  given times.\<close>

definition scanTimes :: "nat list \<Rightarrow> nat list" where
  "scanTimes ts = scans (drain (foldl notify idle ts))"

section \<open>Notions used in the statements\<close>

text \<open>No two hyphens stand side by side.\<close>

abbreviation noHyphenPair :: "string \<Rightarrow> bool" where
  "noHyphenPair \<equiv> successively (\<lambda>a b. \<not> (a = CHR ''-'' \<and> b = CHR ''-''))"

text \<open>A facet is parseable when it holds a string from which \<open>parseFloat\<close> reads a
  number.\<close>

definition parseable :: "string option \<Rightarrow> bool" where
  "parseable v \<longleftrightarrow> (case v of None \<Rightarrow> False | Some s \<Rightarrow> parseFloat s \<noteq> NaN)"

text \<open>All parseable facets of a response in the order of the scan (printings in
  response order, within each the facets base, foil, etched), each with its value and its
  URL.\<close>

definition parsedQuotes :: "card list \<Rightarrow> (number \<times> string) list" where
  "parsedQuotes cs =
     map (\<lambda>(v, u). (parseFloat (the v), u))
       (filter (\<lambda>(v, u). parseable v) (concat (map pricesOf cs)))"

definition parsedOf :: "(string option \<times> string) list \<Rightarrow> (number \<times> string) list" where
  "parsedOf qs = map (\<lambda>(v, u). (parseFloat (the v), u)) (filter (\<lambda>(v, u). parseable v) qs)"

text \<open>The first entry, in scan order, that no entry is strictly below: the minimum, and on
  a tie the one met first.\<close>

definition firstMinimum :: "(number \<times> string) list \<Rightarrow> (number \<times> string) option" where
  "firstMinimum ps = find (\<lambda>(p, u). list_all (\<lambda>(q, v). \<not> lt q p) ps) ps"

text \<open>The same, as a split of the list: everything before the entry is strictly above it,
  nothing after it is strictly below.\<close>

definition firstMinAt :: "(number \<times> string) list \<Rightarrow> number \<Rightarrow> string \<Rightarrow> bool" where
  "firstMinAt ps p u \<longleftrightarrow>
     (\<exists>xs ys. ps = xs @ (p, u) # ys \<and> (\<forall>(q, v) \<in> set xs. lt p q) \<and>
        (\<forall>(q, v) \<in> set ys. \<not> lt q p))"

text \<open>\<open>price\<close> and \<open>purchaseUrl\<close> are both null or both set.\<close>

definition paired :: "priceResult \<Rightarrow> bool" where
  "paired r \<longleftrightarrow> (price r = None) = (purchaseUrl r = None)"

text \<open>The nodes of a link cluster, as \<open>buildLinks\<close> leaves them in the store: a link with
  its text node, the links and texts below the container, and the container itself.\<close>

definition linkNode :: "ref \<Rightarrow> ref \<Rightarrow> string \<Rightarrow> string \<Rightarrow> node" where
  "linkNode box self href cls =
     \<lparr>tagName = ''A'',
      attrs = [''href'' \<mapsto> href, ''target'' \<mapsto> ''_blank'', ''rel'' \<mapsto> ''noopener noreferrer'',
               ''class'' \<mapsto> cls],
      selectedValue = None, nodeData = [], childNodes = [Suc self], parentNode = Some box\<rparr>"

definition textNode :: "string \<Rightarrow> ref \<Rightarrow> node" where
  "textNode chars par =
     \<lparr>tagName = ''#text'', attrs = Map.empty, selectedValue = None, nodeData = chars,
      childNodes = [], parentNode = Some par\<rparr>"

definition innerNodes :: "priceResult \<Rightarrow> number \<Rightarrow> ref \<Rightarrow> node list" where
  "innerNodes r p box =
     linkNode box (Suc box) (case purchaseUrl r of None \<Rightarrow> ''null'' | Some u \<Rightarrow> u)
       ''moxfield-card-price'' #
     textNode (''$'' @ toFixed2 p) (Suc box) #
     (if truthyString (scryfallUrl r)
      then [linkNode box (box + 3) (the (scryfallUrl r)) ''moxfield-card-link'',
            textNode ''Scryfall'' (box + 3)]
      else []) @
     (if edhrecUrl r \<noteq> []
      then [linkNode box (if truthyString (scryfallUrl r) then box + 5 else box + 3)
              (edhrecUrl r) ''moxfield-card-link'',
            textNode ''EDHREC'' (if truthyString (scryfallUrl r) then box + 5 else box + 3)]
      else [])"

definition boxNode :: "priceResult \<Rightarrow> ref \<Rightarrow> ref option \<Rightarrow> node" where
  "boxNode r box par =
     \<lparr>tagName = ''DIV'', attrs = [''class'' \<mapsto> ''moxfield-card-links''],
      selectedValue = None, nodeData = [],
      childNodes = Suc box # (if truthyString (scryfallUrl r) then [box + 3] else []) @
                   (if edhrecUrl r \<noteq> []
                    then [if truthyString (scryfallUrl r) then box + 5 else box + 3] else []),
      parentNode = par\<rparr>"

text \<open>A burst: every notification comes less than 300 units after the one before.\<close>

definition burst :: "nat list \<Rightarrow> bool" where
  "burst ts \<longleftrightarrow> ts \<noteq> [] \<and> successively (\<lambda>a b. a \<le> b \<and> b < a + 300) ts"

text \<open>One timer is pending, set by the notification at time \<open>t\<close>.\<close>

definition armed :: "loop \<Rightarrow> nat \<Rightarrow> bool" where
  "armed l t \<longleftrightarrow> (\<exists>i. pending l = [(i, t + 300)] \<and> observerTimeout l = Some i)"

subsection \<open>Inputs for the examples\<close>

definition freshState :: state where
  "freshState = \<lparr>dom = [], root = 0, priceCache = Map.empty, requests = [], console = []\<rparr>"

definition printing ::
  "string option \<Rightarrow> string option \<Rightarrow> string option \<Rightarrow> string option \<Rightarrow> string \<Rightarrow> card" where
  "printing base foil etched shop page =
     \<lparr>prices = Some \<lparr>usd = base, usd_foil = foil, usd_etched = etched\<rparr>,
      purchase_uris = Some \<lparr>tcgplayer = shop\<rparr>, scryfall_uri = page\<rparr>"

definition answering :: "card list \<Rightarrow> fetch" where
  "answering cs = (\<lambda>url. Some \<lparr>ok = True, status = 200, body = Listing cs\<rparr>)"

definition emptyListing :: fetch where
  "emptyListing = answering []"

definition unreachable :: fetch where
  "unreachable = (\<lambda>url. None)"

definition refusing :: "nat \<Rightarrow> fetch" where
  "refusing code = (\<lambda>url. Some \<lparr>ok = False, status = code, body = Malformed\<rparr>)"

definition foilCheaper :: "card list" where
  "foilCheaper = [printing (Some ''12.50'') (Some ''9.99'') None (Some ''shop/a'') ''page/a'']"

definition tiedPrintings :: "card list" where
  "tiedPrintings =
     [printing (Some ''5.00'') (Some ''n/a'') None None ''page/a'',
      printing (Some ''5.00'') None None (Some ''shop/b'') ''page/b'']"

definition unpriced :: "card list" where
  "unpriced = [printing None None None (Some ''shop/a'') ''page/a'']"

definition cachedState :: state where
  "cachedState = freshState\<lparr>priceCache := [''Mox'' \<mapsto> buildResult ''Mox'' foilCheaper]\<rparr>"

definition giveaway :: "card list" where
  "giveaway = [printing (Some ''0.00'') (Some ''1.25'') None (Some ''shop/a'') ''page/a'']"

definition solRing :: priceResult where
  "solRing = \<lparr>price = Some (Finite (999 / 100)), purchaseUrl = Some ''shop/a'',
     scryfallUrl = Some ''page/a'', edhrecUrl = ''https://edhrec.com/cards/sol-ring''\<rparr>"

definition element :: "string \<Rightarrow> (string \<times> string) list \<Rightarrow> ref list \<Rightarrow> ref option \<Rightarrow> node" where
  "element tag as kids par =
     \<lparr>tagName = tag, attrs = map_of as, selectedValue = None, nodeData = [],
      childNodes = kids, parentNode = par\<rparr>"

definition galleryDom :: dom where
  "galleryDom =
     [element ''BODY'' [] [1, 3, 4] None,
      element ''DIV'' [(''class'', ''img-card'')] [2] (Some 0),
      element ''IMG'' [(''alt'', ''Sol Ring'')] [] (Some 1),
      element ''DIV'' [(''class'', ''img-card'')] [] (Some 0),
      (element ''SELECT'' [(''id'', ''viewMode'')] [] (Some 0))\<lparr>selectedValue := Some ''spoiler''\<rparr>]"

definition gallery :: state where
  "gallery = \<lparr>dom = galleryDom, root = 0, priceCache = Map.empty, requests = [], console = []\<rparr>"

definition orphanDom :: dom where
  "orphanDom = [element ''DIV'' [(''class'', ''img-card''), (''data-price-added'', ''true'')] [] None]"

definition orphan :: state where
  "orphan = \<lparr>dom = orphanDom, root = 0, priceCache = Map.empty, requests = [], console = []\<rparr>"

text \<open>The gallery after a scan during which the network was unreachable.\<close>

definition failedGallery :: state where
  "failedGallery =
     gallery\<lparr>dom := markProcessed 3 (markProcessed 1 (dom gallery)),
       requests := [searchUrl ''Sol Ring''],
       console := [(errorMessage ''Sol Ring'', NetworkError)]\<rparr>"

text \<open>A page with two cards of one name.\<close>

definition twinDom :: dom where
  "twinDom =
     [element ''BODY'' [] [1, 3, 5] None,
      element ''DIV'' [(''class'', ''img-card'')] [2] (Some 0),
      element ''IMG'' [(''alt'', ''Sol Ring'')] [] (Some 1),
      element ''DIV'' [(''class'', ''img-card'')] [4] (Some 0),
      element ''IMG'' [(''alt'', ''Sol Ring'')] [] (Some 3),
      (element ''SELECT'' [(''id'', ''viewMode'')] [] (Some 0))\<lparr>selectedValue := Some ''spoiler''\<rparr>]"

definition twins :: state where
  "twins = \<lparr>dom = twinDom, root = 0, priceCache = Map.empty, requests = [], console = []\<rparr>"

definition tenMutations :: "nat list" where
  "tenMutations = map (\<lambda>k. 1000 + 50 * k) [0..<10]"

section \<open>The companion URL\<close>

lemma hyphen_not_alnum: "\<not> isAlnum (CHR ''-'')"
  by (simp add: isAlnum_def lowerCase_def decimalDigits_def)

lemma collapseRuns_skip:
  "collapseRuns True cs = collapseRuns False (dropWhile (\<lambda>x. \<not> isAlnum x) cs)"
  by (induction cs) auto

lemma replaceNonAlnumRuns_collapse: "replaceNonAlnumRuns s = collapseRuns False s"
  by (induction s rule: replaceNonAlnumRuns.induct) (auto simp: collapseRuns_skip)

lemma collapseRuns_head:
  "collapseRuns True cs = [] \<or> isAlnum (hd (collapseRuns True cs))"
  by (induction cs) auto

lemma collapseRuns_noHyphenPair: "noHyphenPair (collapseRuns b cs)"
proof (induction cs arbitrary: b)
  case Nil
  show ?case by simp
next
  case (Cons c cs)
  show ?case
  proof (cases "isAlnum c")
    case True
    then show ?thesis
      using Cons [of False] hyphen_not_alnum by (auto simp: successively_Cons)
  next
    case False
    then show ?thesis
      using Cons [of True] collapseRuns_head [of cs] hyphen_not_alnum
      by (auto simp: successively_Cons)
  qed
qed

lemma strip_front:
  assumes "noHyphenPair s"
  shows "dropWhile (\<lambda>c. c = CHR ''-'') s =
         (case s of c # cs \<Rightarrow> if c = CHR ''-'' then cs else s | [] \<Rightarrow> s)"
proof (cases s)
  case Nil
  then show ?thesis by simp
next
  case (Cons c cs)
  then show ?thesis using assms by (cases cs) auto
qed

lemma strip_back:
  assumes "noHyphenPair s"
  shows "rev (dropWhile (\<lambda>c. c = CHR ''-'') (rev s)) =
         (if s \<noteq> [] \<and> last s = CHR ''-'' then butlast s else s)"
proof -
  have r: "noHyphenPair (rev s)"
    using assms by (auto elim!: successively_mono)
  show ?thesis
    using strip_front [OF r]
    by (cases s rule: rev_cases) (auto split: list.splits if_splits)
qed

lemma noHyphenPair_tl: "noHyphenPair s \<Longrightarrow> noHyphenPair (tl s)"
  by (cases s) (auto simp: successively_Cons)

lemma stripEdgeHyphens_trim:
  assumes "noHyphenPair s"
  shows "stripEdgeHyphens s = trimHyphens s"
proof -
  let ?s1 = "case s of c # cs \<Rightarrow> if c = CHR ''-'' then cs else s | [] \<Rightarrow> s"
  have "noHyphenPair ?s1"
    using assms noHyphenPair_tl [OF assms] by (auto split: list.splits)
  then show ?thesis
    unfolding stripEdgeHyphens_def trimHyphens_def Let_def
    using strip_front [OF assms] strip_back [of ?s1] by simp
qed

lemma slug_eq_spec: "slug cardName = slug_spec cardName"
  unfolding slug_def slug_spec_def replaceNonAlnumRuns_collapse
  by (rule stripEdgeHyphens_trim) (rule collapseRuns_noHyphenPair)

lemma slug_fire_ice: "slug ''Fire // Ice'' = ''fire-ice''"
  by code_simp

lemma edhrecUrl_buildResult: "edhrecUrl (buildResult cardName cs) = edhrecUrlOf cardName"
  by (simp add: buildResult_def split: prod.splits)

text \<open>
  C8. For every card name the slug of the companion URL, as the source computes it with
  its two regular expressions, is the name lower-cased, with every run of
  non-alphanumeric characters replaced by one hyphen and the leading and trailing hyphens
  trimmed. The URL stored in a result is built from the name alone, whatever printings the
  network returned. The name \<open>Fire // Ice\<close> gives the slug \<open>fire-ice\<close>.
\<close>

theorem companion_slug:
  "slug cardName = slug_spec cardName \<and>
   edhrecUrl (buildResult cardName cs) = ''https://edhrec.com/cards/'' @ slug_spec cardName \<and>
   slug ''Fire // Ice'' = ''fire-ice''"
  using slug_eq_spec [of cardName] slug_fire_ice edhrecUrl_buildResult [of cardName cs]
  by (simp add: edhrecUrlOf_def)

section \<open>The cheapest price\<close>

lemma parseFloat_empty: "parseFloat [] = NaN"
  by (simp add: parseFloat_def)

lemma parseable_iff: "parseable v \<longleftrightarrow> truthyString v \<and> \<not> isNaN (parseFloat (the v))"
  by (auto simp: parseable_def truthyString_def isNaN_def parseFloat_empty split: option.splits)

lemma lt_irrefl: "\<not> lt p p"
  by (cases p) auto

lemma lt_asym: "lt p q \<Longrightarrow> \<not> lt q p"
  by (cases p; cases q) auto

lemma lt_trans: "lt p q \<Longrightarrow> lt q r \<Longrightarrow> lt p r"
  by (cases p; cases q; cases r) auto

lemma lt_below: "lt q p \<Longrightarrow> \<not> lt y p \<Longrightarrow> y \<noteq> NaN \<Longrightarrow> lt q y"
  by (cases p; cases q; cases y) auto

lemma parsedOf_notNaN: "(q, v) \<in> set (parsedOf qs) \<Longrightarrow> q \<noteq> NaN"
  by (auto simp: parsedOf_def parseable_def split: option.splits)

lemma considerPrice_skip:
  "\<not> parseable v \<Longrightarrow> considerPrice best (v, u) = best"
  by (auto simp: considerPrice_def parseable_iff)

lemma considerPrice_take:
  "parseable v \<Longrightarrow> considerPrice (None, None) (v, u) = (Some (parseFloat (the v)), Some u)"
  by (auto simp: considerPrice_def parseable_iff Let_def)

lemma considerPrice_cmp:
  "parseable v \<Longrightarrow> considerPrice (Some p, w) (v, u) =
     (if lt (parseFloat (the v)) p then (Some (parseFloat (the v)), Some u) else (Some p, w))"
  by (auto simp: considerPrice_def parseable_iff Let_def)

lemma scan_invariant:
  "(parsedOf qs = [] \<and> foldl considerPrice (None, None) qs = (None, None)) \<or>
   (\<exists>p u. foldl considerPrice (None, None) qs = (Some p, Some u) \<and> firstMinAt (parsedOf qs) p u)"
proof (induction qs rule: rev_induct)
  case Nil
  show ?case by (simp add: parsedOf_def)
next
  case (snoc e qs)
  obtain v w where e: "e = (v, w)" by (cases e)
  show ?case
  proof (cases "parseable v")
    case False
    then show ?thesis using snoc by (simp add: e considerPrice_skip parsedOf_def)
  next
    case True
    let ?q = "parseFloat (the v)"
    have po: "parsedOf (qs @ [e]) = parsedOf qs @ [(?q, w)]"
      using True by (simp add: parsedOf_def e)
    have qn: "?q \<noteq> NaN" using True by (auto simp: parseable_def split: option.splits)
    from snoc show ?thesis
    proof (elim disjE conjE exE)
      assume "parsedOf qs = []" "foldl considerPrice (None, None) qs = (None, None)"
      then have "foldl considerPrice (None, None) (qs @ [e]) = (Some ?q, Some w)"
        and "parsedOf (qs @ [e]) = [] @ (?q, w) # []"
        using True po by (auto simp: e considerPrice_take)
      then show ?thesis unfolding firstMinAt_def by fastforce
    next
      fix p u
      assume st: "foldl considerPrice (None, None) qs = (Some p, Some u)"
        and fm: "firstMinAt (parsedOf qs) p u"
      from fm obtain xs ys where dec: "parsedOf qs = xs @ (p, u) # ys"
        and before: "\<forall>(q, v) \<in> set xs. lt p q" and after: "\<forall>(q, v) \<in> set ys. \<not> lt q p"
        unfolding firstMinAt_def by blast
      show ?thesis
      proof (cases "lt ?q p")
        case False
        then have "foldl considerPrice (None, None) (qs @ [e]) = (Some p, Some u)"
          using True st by (simp add: e considerPrice_cmp)
        moreover have "firstMinAt (parsedOf (qs @ [e])) p u"
          unfolding firstMinAt_def po
          using dec before after False
          by (intro exI [of _ xs] exI [of _ "ys @ [(?q, w)]"]) auto
        ultimately show ?thesis by blast
      next
        case lower: True
        then have "foldl considerPrice (None, None) (qs @ [e]) = (Some ?q, Some w)"
          using True st by (simp add: e considerPrice_cmp)
        moreover have "firstMinAt (parsedOf (qs @ [e])) ?q w"
        proof -
          have "\<forall>(q, v) \<in> set (parsedOf qs). lt ?q q"
          proof (clarify)
            fix q v assume m: "(q, v) \<in> set (parsedOf qs)"
            then have nn: "q \<noteq> NaN" by (rule parsedOf_notNaN)
            from m dec consider "(q, v) \<in> set xs" | "q = p" | "(q, v) \<in> set ys" by auto
            then show "lt ?q q"
            proof cases
              case 1
              then have "lt p q" using before by auto
              with lower show ?thesis by (rule lt_trans)
            next
              case 2
              then show ?thesis using lower by simp
            next
              case 3
              then have "\<not> lt q p" using after by auto
              with lower show ?thesis using nn by (rule lt_below)
            qed
          qed
          then show ?thesis
            unfolding firstMinAt_def po
            by (intro exI [of _ "parsedOf qs"] exI [of _ "[]"]) auto
        qed
        ultimately show ?thesis by blast
      qed
    qed
  qed
qed

lemma firstMinAt_find:
  assumes "firstMinAt ps p u"
  shows "firstMinimum ps = Some (p, u)"
proof -
  from assms obtain xs ys where dec: "ps = xs @ (p, u) # ys"
    and before: "\<forall>(q, v) \<in> set xs. lt p q" and after: "\<forall>(q, v) \<in> set ys. \<not> lt q p"
    unfolding firstMinAt_def by blast
  let ?P = "\<lambda>(p, u). list_all (\<lambda>(q, v). \<not> lt q p) ps"
  have no: "\<forall>x \<in> set xs. \<not> ?P x"
    using before dec by (auto simp: list_all_iff)
  have yes: "?P (p, u)"
    using before after dec by (auto simp: list_all_iff lt_irrefl dest: lt_asym)
  have "find ?P (xs @ (p, u) # ys) = Some (p, u)"
    using no yes by (induction xs) auto
  then show ?thesis by (simp add: firstMinimum_def dec)
qed

lemma scan_firstMinimum:
  "foldl considerPrice (None, None) qs =
     (map_option fst (firstMinimum (parsedOf qs)), map_option snd (firstMinimum (parsedOf qs)))"
  using scan_invariant [of qs]
  by (auto simp: firstMinimum_def dest: firstMinAt_find)

lemma foldl_considerCard:
  "fst (foldl considerCard (best, sUrl) cs) = foldl considerPrice best (concat (map pricesOf cs))"
  by (induction cs arbitrary: best sUrl) (auto simp: considerCard_def)

lemma scanPrintings_best:
  "fst (scanPrintings cs) =
     (map_option fst (firstMinimum (parsedQuotes cs)), map_option snd (firstMinimum (parsedQuotes cs)))"
  by (simp add: scanPrintings_def foldl_considerCard scan_firstMinimum parsedQuotes_def parsedOf_def)

lemma scan_none_iff:
  "fst (foldl considerPrice (None, None) qs) = None \<longleftrightarrow> parsedOf qs = []"
  using scan_invariant [of qs] by (auto simp: firstMinAt_def)

lemma buildResult_price_none: "price (buildResult n cs) = None \<longleftrightarrow> parsedQuotes cs = []"
proof -
  have "fst (fst (scanPrintings cs)) = None \<longleftrightarrow> parsedOf (concat (map pricesOf cs)) = []"
    unfolding scanPrintings_def foldl_considerCard by (rule scan_none_iff)
  then show ?thesis
    by (auto simp: buildResult_def parsedQuotes_def parsedOf_def split: prod.splits)
qed

lemma buildResult_cheapest:
  "price (buildResult n cs) = map_option fst (firstMinimum (parsedQuotes cs)) \<and>
   purchaseUrl (buildResult n cs) = map_option snd (firstMinimum (parsedQuotes cs))"
  using scanPrintings_best [of cs] by (auto simp: buildResult_def split: prod.splits)

section \<open>The resolver and its cache\<close>

lemma getCardPrice_hit:
  "priceCache s n = Some r \<Longrightarrow> getCardPrice fetch s n = (Some r, s)"
  by (simp add: getCardPrice_def)

lemma getCardPrice_listing:
  assumes "priceCache s n = None" "fetch (searchUrl n) = Some r" "ok r" "body r = Listing cs"
    "cs \<noteq> []"
  shows "getCardPrice fetch s n =
    (Some (buildResult n cs),
     s\<lparr>requests := requests s @ [searchUrl n],
       priceCache := (priceCache s)(n \<mapsto> buildResult n cs)\<rparr>)"
  using assms by (simp add: getCardPrice_def readAnswer_def Let_def)

lemma getCardPrice_empty:
  assumes "priceCache s n = None" "fetch (searchUrl n) = Some r" "ok r"
    "body r = Listing [] \<or> body r = NoList"
  shows "getCardPrice fetch s n = (None, s\<lparr>requests := requests s @ [searchUrl n]\<rparr>)"
  using assms by (auto simp: getCardPrice_def readAnswer_def Let_def)

lemma getCardPrice_error:
  assumes "priceCache s n = None" "readAnswer n (fetch (searchUrl n)) = Inl e"
  shows "getCardPrice fetch s n =
    (None, s\<lparr>requests := requests s @ [searchUrl n],
             console := console s @ [(errorMessage n, e)]\<rparr>)"
  using assms by (simp add: getCardPrice_def Let_def)

lemma getCardPrice_miss_requests:
  "priceCache s n = None \<Longrightarrow>
   requests (snd (getCardPrice fetch s n)) = requests s @ [searchUrl n]"
  by (auto simp: getCardPrice_def Let_def split: sum.splits option.splits)

lemmas parseFloat_eval =
  parseFloat_def isWhiteSpace_def isDigit_def decimalDigits_def natOfDigits_def digitVal_def
  exponentPart_def scale10_def Let_def

lemma parseFloat_12_50: "parseFloat ''12.50'' = Finite (25 / 2)"
  by (simp add: parseFloat_eval)

lemma parseFloat_9_99: "parseFloat ''9.99'' = Finite (999 / 100)"
  by (simp add: parseFloat_eval)

lemma parseFloat_5_00: "parseFloat ''5.00'' = Finite 5"
  by (simp add: parseFloat_eval)

lemma parseFloat_n_a: "parseFloat ''n/a'' = NaN"
  by (simp add: parseFloat_eval)

lemmas quotes_eval =
  parsedQuotes_def pricesOf_def facet_def purchaseUrlOf_def printing_def parseable_def
  truthyString_def firstMinimum_def

lemma foilCheaper_min:
  "firstMinimum (parsedQuotes foilCheaper) = Some (Finite (999 / 100), ''shop/a'')"
  by (simp add: foilCheaper_def quotes_eval parseFloat_12_50 parseFloat_9_99)

lemma tiedPrintings_min:
  "firstMinimum (parsedQuotes tiedPrintings) = Some (Finite 5, ''page/a'')"
  by (simp add: tiedPrintings_def quotes_eval parseFloat_5_00 parseFloat_n_a)

text \<open>
  C4. When the request for a name that is not cached is answered with success and at least
  one printing, \<open>getCardPrice\<close> returns a result, whatever the price strings are. Its price
  is null only when no facet parses; otherwise it is the least value among all parseable
  facets of all printings, and its purchase URL is
  the URL paired with the first facet, in scan order (printings in response order, facets
  base, foil, etched), that has this value: a later facet replaces an earlier one only
  when it is strictly lower. The URL of a facet is the printing's \<open>tcgplayer\<close> link, or its
  \<open>scryfall_uri\<close> when it has none. Facets that are null or do not parse are left out.
\<close>

theorem cheapest_price:
  assumes "priceCache s n = None" and "fetch (searchUrl n) = Some r" and "ok r"
    and "body r = Listing cs" and "cs \<noteq> []"
  shows "\<exists>res. fst (getCardPrice fetch s n) = Some res \<and>
           price res = map_option fst (firstMinimum (parsedQuotes cs)) \<and>
           purchaseUrl res = map_option snd (firstMinimum (parsedQuotes cs)) \<and>
           (price res = None) = (parsedQuotes cs = [])"
  using getCardPrice_listing [of s n fetch r cs] assms buildResult_cheapest [of n cs]
    buildResult_price_none [of n cs]
  by simp

theorem cheapest_price_witness:
  "priceCache freshState ''Mox'' = None \<and>
   answering foilCheaper (searchUrl ''Mox'') =
     Some \<lparr>ok = True, status = 200, body = Listing foilCheaper\<rparr> \<and>
   foilCheaper \<noteq> [] \<and>
   (\<exists>res. fst (getCardPrice (answering foilCheaper) freshState ''Mox'') = Some res \<and>
      price res = Some (Finite (999 / 100)) \<and> purchaseUrl res = Some ''shop/a'') \<and>
   (\<exists>res. fst (getCardPrice (answering tiedPrintings) freshState ''Mox'') = Some res \<and>
      price res = Some (Finite 5) \<and> purchaseUrl res = Some ''page/a'')"
proof -
  have miss: "priceCache freshState ''Mox'' = None"
    by (simp add: freshState_def)
  have ans: "answering cs (searchUrl ''Mox'') = Some \<lparr>ok = True, status = 200, body = Listing cs\<rparr>"
    for cs
    by (simp add: answering_def)
  have ne: "foilCheaper \<noteq> []" "tiedPrintings \<noteq> []"
    by (simp_all add: foilCheaper_def tiedPrintings_def)
  have a: "\<exists>res. fst (getCardPrice (answering foilCheaper) freshState ''Mox'') = Some res \<and>
      price res = Some (Finite (999 / 100)) \<and> purchaseUrl res = Some ''shop/a''"
    using cheapest_price [of freshState "''Mox''" "answering foilCheaper" _ foilCheaper,
        OF miss ans _ _ ne(1)]
    by (auto simp: foilCheaper_min)
  have b: "\<exists>res. fst (getCardPrice (answering tiedPrintings) freshState ''Mox'') = Some res \<and>
      price res = Some (Finite 5) \<and> purchaseUrl res = Some ''page/a''"
    using cheapest_price [of freshState "''Mox''" "answering tiedPrintings" _ tiedPrintings,
        OF miss ans _ _ ne(2)]
    by (auto simp: tiedPrintings_min)
  show ?thesis
    using miss ans [of foilCheaper] ne a b by blast
qed

text \<open>
  C5. When the cache holds a result for the name, \<open>getCardPrice\<close> returns that result and
  leaves the state as it is, so no request is made, whatever the network would answer; and
  no later call, for any name, removes or changes the entry.
\<close>

theorem cache_hit:
  assumes "priceCache s n = Some r"
  shows "getCardPrice fetch s n = (Some r, s) \<and>
         priceCache (snd (getCardPrice fetch s m)) n = Some r"
  using assms
  by (auto simp: getCardPrice_def readAnswer_def Let_def
      split: sum.splits option.splits if_splits body.splits)

theorem cache_hit_witness:
  "priceCache cachedState ''Mox'' = Some (buildResult ''Mox'' foilCheaper) \<and>
   getCardPrice unreachable cachedState ''Mox'' = (Some (buildResult ''Mox'' foilCheaper), cachedState) \<and>
   requests (snd (getCardPrice unreachable cachedState ''Mox'')) = [] \<and>
   priceCache (snd (getCardPrice (answering unpriced) cachedState ''Opal'')) ''Mox'' =
     Some (buildResult ''Mox'' foilCheaper)"
proof -
  have hit: "priceCache cachedState ''Mox'' = Some (buildResult ''Mox'' foilCheaper)"
    by (simp add: cachedState_def)
  have rq: "requests cachedState = []"
    by (simp add: cachedState_def freshState_def)
  show ?thesis
    using cache_hit [OF hit, of unreachable "''Mox''"]
      cache_hit [OF hit, of "answering unpriced" "''Opal''"] hit rq
    by simp
qed

text \<open>
  C2, as claimed, fails: after a successful answer with no printings the cache holds no
  entry for the name, and the second call for the name sends a second request.
\<close>

theorem empty_listing_cached_counterexample:
  "priceCache (snd (getCardPrice emptyListing freshState ''Nonesuch'')) ''Nonesuch'' = None \<and>
   requests (snd (getCardPrice emptyListing
       (snd (getCardPrice emptyListing freshState ''Nonesuch'')) ''Nonesuch'')) \<noteq>
   requests (snd (getCardPrice emptyListing freshState ''Nonesuch''))"
  by (simp add: getCardPrice_def readAnswer_def emptyListing_def answering_def freshState_def
      Let_def)

text \<open>
  C2, amended. When the name is not cached and the request is answered with success but
  with no printings (an empty list, or no list), \<open>getCardPrice\<close> returns null and changes
  nothing but the log of requests: the cache gets no entry and no error is logged. A second
  call for the same name sends the request again.
\<close>

theorem empty_listing_not_cached:
  assumes "priceCache s n = None" and "fetch (searchUrl n) = Some r" and "ok r"
    and "body r = Listing [] \<or> body r = NoList"
  shows "getCardPrice fetch s n = (None, s\<lparr>requests := requests s @ [searchUrl n]\<rparr>) \<and>
         requests (snd (getCardPrice fetch' (snd (getCardPrice fetch s n)) n)) =
           requests s @ [searchUrl n, searchUrl n]"
  using getCardPrice_empty [OF assms(1), of fetch r] assms
    getCardPrice_miss_requests [of "s\<lparr>requests := requests s @ [searchUrl n]\<rparr>" n fetch']
  by auto

theorem empty_listing_not_cached_witness:
  "priceCache freshState ''Nonesuch'' = None \<and>
   emptyListing (searchUrl ''Nonesuch'') = Some \<lparr>ok = True, status = 200, body = Listing []\<rparr> \<and>
   getCardPrice emptyListing freshState ''Nonesuch'' =
     (None, freshState\<lparr>requests := [searchUrl ''Nonesuch'']\<rparr>) \<and>
   requests (snd (getCardPrice emptyListing
       (snd (getCardPrice emptyListing freshState ''Nonesuch'')) ''Nonesuch'')) =
     [searchUrl ''Nonesuch'', searchUrl ''Nonesuch'']"
proof -
  have miss: "priceCache freshState ''Nonesuch'' = None"
    by (simp add: freshState_def)
  have ans: "emptyListing (searchUrl ''Nonesuch'') =
      Some \<lparr>ok = True, status = 200, body = Listing []\<rparr>"
    by (simp add: emptyListing_def answering_def)
  have rq: "requests freshState = []"
    by (simp add: freshState_def)
  have t: "getCardPrice emptyListing freshState ''Nonesuch'' =
      (None, freshState\<lparr>requests := [searchUrl ''Nonesuch'']\<rparr>) \<and>
    requests (snd (getCardPrice emptyListing
       (snd (getCardPrice emptyListing freshState ''Nonesuch'')) ''Nonesuch'')) =
     [searchUrl ''Nonesuch'', searchUrl ''Nonesuch'']"
    using empty_listing_not_cached
      [of freshState "''Nonesuch''" emptyListing _ emptyListing, OF miss ans]
    by (auto simp: rq)
  show ?thesis
    using miss ans t by blast
qed

lemma considerPrice_paired:
  "(fst best = None) = (snd best = None) \<Longrightarrow>
   (fst (considerPrice best e) = None) = (snd (considerPrice best e) = None)"
  by (cases e) (auto simp: considerPrice_def Let_def)

lemma foldl_considerPrice_paired:
  "(fst best = None) = (snd best = None) \<Longrightarrow>
   (fst (foldl considerPrice best es) = None) = (snd (foldl considerPrice best es) = None)"
proof (induction es arbitrary: best)
  case Nil
  then show ?case by simp
next
  case (Cons e es)
  show ?case
    using Cons.IH [OF considerPrice_paired [OF Cons.prems, of e]] by simp
qed

lemma buildResult_paired: "paired (buildResult n cs)"
proof -
  have "(fst (fst (scanPrintings cs)) = None) = (snd (fst (scanPrintings cs)) = None)"
    unfolding scanPrintings_def foldl_considerCard
    by (rule foldl_considerPrice_paired) simp
  then show ?thesis
    by (auto simp: paired_def buildResult_def split: prod.splits)
qed

lemma foldl_considerCard_set:
  "snd (foldl considerCard (best, Some u) cs) \<noteq> None"
  by (induction cs arbitrary: best u) (auto simp: considerCard_def)

lemma buildResult_scryfallUrl: "cs \<noteq> [] \<Longrightarrow> scryfallUrl (buildResult n cs) \<noteq> None"
proof (cases cs)
  case Nil
  then show "cs \<noteq> [] \<Longrightarrow> ?thesis" by simp
next
  case (Cons c cs')
  have "snd (scanPrintings cs) \<noteq> None"
    unfolding scanPrintings_def Cons
    using foldl_considerCard_set [of _ "scryfall_uri c" cs']
    by (simp add: considerCard_def truthyString_def)
  then show ?thesis
    by (auto simp: buildResult_def split: prod.splits)
qed

lemma getCardPrice_returns:
  assumes "priceCache s n = None" "fst (getCardPrice fetch s n) = Some r"
  shows "\<exists>cs. cs \<noteq> [] \<and> r = buildResult n cs \<and>
     priceCache (snd (getCardPrice fetch s n)) = (priceCache s)(n \<mapsto> r)"
  using assms
  by (auto simp: getCardPrice_def readAnswer_def Let_def
      split: sum.splits option.splits if_splits body.splits)

lemma unpriced_result:
  "buildResult n unpriced =
     \<lparr>price = None, purchaseUrl = None, scryfallUrl = Some ''page/a'',
      edhrecUrl = edhrecUrlOf n\<rparr>"
  by (simp add: buildResult_def scanPrintings_def considerCard_def considerPrice_def
      unpriced_def pricesOf_def facet_def purchaseUrlOf_def printing_def truthyString_def)

text \<open>
  C6. Every result that \<open>getCardPrice\<close> builds has \<open>price\<close> and \<open>purchaseUrl\<close> both null or
  both set, and this is the result it stores in the cache and returns. \<open>scryfallUrl\<close> is
  set whenever there is a printing and \<open>edhrecUrl\<close> is built from the name, whether or not
  there is a price: some answers give a result with both of them and no price.
\<close>

theorem price_and_purchaseUrl_paired:
  "paired (buildResult n cs) \<and>
   (cs \<noteq> [] \<longrightarrow> scryfallUrl (buildResult n cs) \<noteq> None) \<and>
   edhrecUrl (buildResult n cs) = edhrecUrlOf n \<and>
   (priceCache s n = None \<and> fst (getCardPrice fetch s n) = Some r \<longrightarrow>
      paired r \<and> priceCache (snd (getCardPrice fetch s n)) = (priceCache s)(n \<mapsto> r)) \<and>
   (\<exists>ps. ps \<noteq> [] \<and> price (buildResult n ps) = None \<and>
      scryfallUrl (buildResult n ps) \<noteq> None \<and> edhrecUrl (buildResult n ps) \<noteq> [])"
proof -
  have "unpriced \<noteq> [] \<and> price (buildResult n unpriced) = None \<and>
      scryfallUrl (buildResult n unpriced) \<noteq> None \<and> edhrecUrl (buildResult n unpriced) \<noteq> []"
    by (simp add: unpriced_result edhrecUrlOf_def) (simp add: unpriced_def)
  then have ex: "\<exists>ps. ps \<noteq> [] \<and> price (buildResult n ps) = None \<and>
      scryfallUrl (buildResult n ps) \<noteq> None \<and> edhrecUrl (buildResult n ps) \<noteq> []"
    by blast
  show ?thesis
    using buildResult_paired [of n cs] buildResult_scryfallUrl [of cs n]
      edhrecUrl_buildResult [of n cs] getCardPrice_returns [of s n fetch r]
      buildResult_paired [of n] ex
    by auto
qed

theorem price_and_purchaseUrl_paired_witness:
  "unpriced \<noteq> [] \<and> priceCache freshState ''Mox'' = None \<and>
   fst (getCardPrice (answering unpriced) freshState ''Mox'') = Some (buildResult ''Mox'' unpriced) \<and>
   paired (buildResult ''Mox'' unpriced) \<and>
   price (buildResult ''Mox'' unpriced) = None \<and>
   purchaseUrl (buildResult ''Mox'' unpriced) = None \<and>
   scryfallUrl (buildResult ''Mox'' unpriced) = Some ''page/a'' \<and>
   edhrecUrl (buildResult ''Mox'' unpriced) = ''https://edhrec.com/cards/mox'' \<and>
   priceCache (snd (getCardPrice (answering unpriced) freshState ''Mox'')) ''Mox'' =
     Some (buildResult ''Mox'' unpriced)"
proof -
  have ne: "unpriced \<noteq> []"
    by (simp add: unpriced_def)
  have miss: "priceCache freshState ''Mox'' = None"
    by (simp add: freshState_def)
  have ret: "fst (getCardPrice (answering unpriced) freshState ''Mox'') =
      Some (buildResult ''Mox'' unpriced)"
    using ne by (simp add: getCardPrice_def readAnswer_def answering_def freshState_def Let_def)
  have sl: "edhrecUrlOf ''Mox'' = ''https://edhrec.com/cards/mox''"
    by code_simp
  show ?thesis
    using price_and_purchaseUrl_paired
      [of "''Mox''" unpriced freshState "answering unpriced" "buildResult ''Mox'' unpriced"]
      ne miss ret
    by (simp add: unpriced_result sl)
qed

section \<open>Cards without a name\<close>

lemma markProcessed_length [simp]: "length (markProcessed el d) = length d"
  by (simp add: markProcessed_def setAttribute_def)

lemma markProcessed_nth:
  "markProcessed el d ! x =
     (if x = el \<and> el < length d
      then (d ! el)\<lparr>attrs := (attrs (d ! el))(''data-price-added'' \<mapsto> ''true'')\<rparr>
      else d ! x)"
  by (cases "el < length d") (auto simp: markProcessed_def setAttribute_def not_less list_update_beyond)

lemma markProcessed_fields [simp]:
  "childNodes (markProcessed el d ! x) = childNodes (d ! x)"
  "parentNode (markProcessed el d ! x) = parentNode (d ! x)"
  "tagName (markProcessed el d ! x) = tagName (d ! x)"
  "nodeData (markProcessed el d ! x) = nodeData (d ! x)"
  "selectedValue (markProcessed el d ! x) = selectedValue (d ! x)"
  "k \<noteq> ''data-price-added'' \<Longrightarrow> attrs (markProcessed el d ! x) k = attrs (d ! x) k"
  by (auto simp: markProcessed_nth)

lemma markProcessed_descendants [simp]:
  "descendants k (markProcessed el d) r = descendants k d r"
  by (induction k arbitrary: r) (auto cong: map_cong)

lemma markProcessed_subtree [simp]: "subtree (markProcessed el d) r = subtree d r"
  by (simp add: subtree_def)

lemma markProcessed_selectors [simp]:
  "isElement (markProcessed el d ! x) = isElement (d ! x)"
  "imgSelector (markProcessed el d ! x) = imgSelector (d ! x)"
  "classContains sub (markProcessed el d ! x) = classContains sub (d ! x)"
  "nameSelector (markProcessed el d ! x) = nameSelector (d ! x)"
  "nameOfImg (markProcessed el d ! x) = nameOfImg (d ! x)"
  by (simp_all add: isElement_def imgSelector_def classContains_def nameSelector_def
      nameOfImg_def alt_def title_def)

lemma markProcessed_querySelector [simp]:
  "querySelector (markProcessed el d) r imgSelector = querySelector d r imgSelector"
  "querySelector (markProcessed el d) r nameSelector = querySelector d r nameSelector"
  "querySelector (markProcessed el d) r (classContains sub) = querySelector d r (classContains sub)"
  by (simp_all add: querySelector_def)

lemma markProcessed_textContent [simp]:
  "textContent (markProcessed el d) r = textContent d r"
  by (simp add: textContent_def)

lemma markProcessed_parentElement [simp]:
  "parentElement (markProcessed el d) r = parentElement d r"
  by (simp add: parentElement_def cong: option.case_cong)

lemma getCardName_markProcessed: "getCardName (markProcessed el d) x = getCardName d x"
  by (simp add: getCardName_def cong: option.case_cong if_cong)

lemma cardSelector_marked:
  "el < length d \<Longrightarrow> \<not> cardSelector (markProcessed el d ! el)"
  by (simp add: cardSelector_def markProcessed_nth)

lemmas dom_eval =
  getCardName_def galleryDom_def gallery_def element_def querySelector_def querySelectorAll_def
  subtree_def imgSelector_def nameSelector_def classContains_def cardSelector_def
  parentElement_def isElement_def truthyString_def nameOfImg_def alt_def title_def
  invalidNames_def toLowerCase_def upperCase_def lowerCase_def isWhiteSpace_def Let_def

lemma gallery_name_1: "getCardName (dom gallery) 1 = Some ''Sol Ring''"
  by (simp add: dom_eval)

lemma gallery_name_3: "getCardName (dom gallery) 3 = None"
  by (simp add: dom_eval)

lemma gallery_cards: "querySelectorAll (dom gallery) (root gallery) cardSelector = [1, 3]"
  by (simp add: dom_eval)

lemma gallery_unmarked: "attrs (dom gallery ! 3) ''data-price-added'' = None"
  "attrs (dom gallery ! 1) ''data-price-added'' = None"
  by (simp_all add: dom_eval)

text \<open>
  C1, as claimed, fails: the second card of the gallery has no name, is among the cards a
  scan selects, and after \<open>addPriceToCard\<close> it carries the marker and is no longer
  selected.
\<close>

theorem nameless_card_unmarked_counterexample:
  "getCardName (dom gallery) 3 = None \<and>
   3 \<in> set (querySelectorAll (dom gallery) (root gallery) cardSelector) \<and>
   attrs (dom (addPriceToCard unreachable gallery 3) ! 3) ''data-price-added'' = Some ''true'' \<and>
   3 \<notin> set (querySelectorAll (dom (addPriceToCard unreachable gallery 3))
              (root (addPriceToCard unreachable gallery 3)) cardSelector)"
proof -
  have len: "3 < length (dom gallery)"
    by (simp add: gallery_def galleryDom_def)
  have un: "\<not> truthyString (attrs (dom gallery ! 3) ''data-price-added'')"
    by (simp add: gallery_unmarked truthyString_def)
  have nm: "\<not> truthyString (getCardName (dom gallery) 3)"
    by (simp add: gallery_name_3 truthyString_def)
  have step: "addPriceToCard unreachable gallery 3 = gallery\<lparr>dom := markProcessed 3 (dom gallery)\<rparr>"
    using un nm by (simp add: addPriceToCard_def Let_def getCardName_markProcessed)
  have mark: "attrs (markProcessed 3 (dom gallery) ! 3) ''data-price-added'' = Some ''true''"
    using len by (simp add: markProcessed_nth)
  have out: "3 \<notin> set (querySelectorAll (markProcessed 3 (dom gallery)) (root gallery) cardSelector)"
    using cardSelector_marked [OF len] by (auto simp: querySelectorAll_def)
  show ?thesis
    using gallery_name_3 gallery_cards mark out by (simp add: step)
qed

text \<open>
  C1, amended. For every unmarked card element whose name extraction yields no name (null,
  undefined or the empty string), \<open>addPriceToCard\<close> changes nothing but the marker: it does
  not call the resolver (no request, no cache entry, no log entry), and it does set the
  marker, before the name is extracted. So the element is not selected by a later scan,
  and a later call of \<open>addPriceToCard\<close> on it returns at once.
\<close>

theorem nameless_card_marked:
  assumes "el < length (dom s)"
    and "\<not> truthyString (attrs (dom s ! el) ''data-price-added'')"
    and "\<not> truthyString (getCardName (dom s) el)"
  shows "addPriceToCard fetch s el = s\<lparr>dom := markProcessed el (dom s)\<rparr> \<and>
         attrs (dom (addPriceToCard fetch s el) ! el) ''data-price-added'' = Some ''true'' \<and>
         el \<notin> set (querySelectorAll (dom (addPriceToCard fetch s el))
                     (root (addPriceToCard fetch s el)) cardSelector) \<and>
         addPriceToCard fetch' (addPriceToCard fetch s el) el = addPriceToCard fetch s el"
proof -
  have step: "addPriceToCard fetch s el = s\<lparr>dom := markProcessed el (dom s)\<rparr>"
    using assms(2,3) by (simp add: addPriceToCard_def Let_def getCardName_markProcessed)
  have mark: "attrs (markProcessed el (dom s) ! el) ''data-price-added'' = Some ''true''"
    using assms(1) by (simp add: markProcessed_nth)
  have out: "el \<notin> set (querySelectorAll (markProcessed el (dom s)) (root s) cardSelector)"
    using cardSelector_marked [OF assms(1)] by (auto simp: querySelectorAll_def)
  have again: "addPriceToCard fetch' (s\<lparr>dom := markProcessed el (dom s)\<rparr>) el =
      s\<lparr>dom := markProcessed el (dom s)\<rparr>"
    using mark by (simp add: addPriceToCard_def truthyString_def)
  show ?thesis
    using step mark out again by simp
qed

theorem nameless_card_marked_witness:
  "3 < length (dom gallery) \<and>
   \<not> truthyString (attrs (dom gallery ! 3) ''data-price-added'') \<and>
   \<not> truthyString (getCardName (dom gallery) 3) \<and>
   addPriceToCard (answering foilCheaper) gallery 3 = gallery\<lparr>dom := markProcessed 3 (dom gallery)\<rparr> \<and>
   requests (addPriceToCard (answering foilCheaper) gallery 3) = [] \<and>
   attrs (dom (addPriceToCard (answering foilCheaper) gallery 3) ! 3) ''data-price-added'' =
     Some ''true''"
proof -
  have len: "3 < length (dom gallery)"
    by (simp add: gallery_def galleryDom_def)
  have un: "\<not> truthyString (attrs (dom gallery ! 3) ''data-price-added'')"
    by (simp add: gallery_unmarked truthyString_def)
  have nm: "\<not> truthyString (getCardName (dom gallery) 3)"
    by (simp add: gallery_name_3 truthyString_def)
  note t = nameless_card_marked [OF len un nm, of "answering foilCheaper" unreachable]
  from t have step: "addPriceToCard (answering foilCheaper) gallery 3 =
      gallery\<lparr>dom := markProcessed 3 (dom gallery)\<rparr>"
    by blast
  from t have mark: "attrs (dom (addPriceToCard (answering foilCheaper) gallery 3) ! 3)
      ''data-price-added'' = Some ''true''"
    by blast
  have rq: "requests (addPriceToCard (answering foilCheaper) gallery 3) = []"
    unfolding step by (simp add: gallery_def)
  show ?thesis
    using len un nm step mark rq by blast
qed

section \<open>The link cluster\<close>

lemma createLink_eq:
  assumes "label \<noteq> []"
  shows "createLink href cls label d =
    (length d, d @ [(linkNode 0 (length d) href cls)\<lparr>parentNode := None\<rparr>, textNode label (length d)])"
  using assms
  by (simp add: createLink_def createElement_def setAttribute_def setTextContent_def
      createTextNode_def appendChild_def detach_def newNode_def linkNode_def textNode_def Let_def
      nth_append list_update_append)

lemma addLink:
  assumes "label \<noteq> []" and "box < length d"
  shows "(case createLink href cls label d of (l, e) \<Rightarrow> appendChild box l e) =
    d[box := (d ! box)\<lparr>childNodes := childNodes (d ! box) @ [length d]\<rparr>] @
    [linkNode box (length d) href cls, textNode label (length d)]"
  using assms
  by (simp add: createLink_eq appendChild_def detach_def linkNode_def textNode_def Let_def
      nth_append list_update_append)

lemma buildLinks_eq:
  "buildLinks r p d = (length d, d @ boxNode r (length d) None # innerNodes r p (length d))"
proof -
  let ?box = "length d"
  let ?d2 = "d @ [(newNode ''DIV'' [])\<lparr>attrs := [''class'' \<mapsto> ''moxfield-card-links'']\<rparr>]"
  have d2: "setAttribute ?box ''class'' ''moxfield-card-links'' (d @ [newNode ''DIV'' []]) = ?d2"
    by (simp add: setAttribute_def newNode_def)
  show ?thesis
    unfolding buildLinks_def createElement_def prod.case Let_def d2
    by (cases "truthyString (scryfallUrl r)"; cases "edhrecUrl r = []")
      (simp_all add: addLink boxNode_def innerNodes_def newNode_def Let_def eval_nat_numeral)
qed

lemma boxNode_parent [simp]:
  "parentNode (boxNode r box par) = par"
  "(boxNode r box par)\<lparr>parentNode := q\<rparr> = boxNode r box q"
  by (simp_all add: boxNode_def)

lemma placeLinks_sibling:
  assumes el: "el < length d" and par: "parentElement d el = Some par"
    and kids: "childNodes (d ! par) = xs @ el # ys" and dist: "distinct (childNodes (d ! par))"
  shows "placeLinks el (length d) (d @ boxNode r (length d) None # rest) =
         d[par := (d ! par)\<lparr>childNodes := xs @ el # length d # ys\<rparr>] @
         boxNode r (length d) (Some par) # rest"
proof -
  let ?d = "d @ boxNode r (length d) None # rest"
  from par have pn: "parentNode (d ! el) = Some par" and pl: "par < length d"
    and pe: "isElement (d ! par)"
    by (auto simp: parentElement_def split: option.splits if_splits)
  have pe': "parentElement ?d el = Some par"
    using el pn pl pe by (simp add: parentElement_def nth_append)
  have notin: "el \<notin> set xs" "el \<notin> set ys"
    using dist kids by auto
  have dw: "dropWhile (\<lambda>x. x \<noteq> el) (xs @ el # ys) = el # ys"
    using notin by (auto simp: dropWhile_append3)
  have ns: "nextSibling ?d el = (case ys of [] \<Rightarrow> None | n # _ \<Rightarrow> Some n)"
    using el pn pl kids dw by (simp add: nextSibling_def nth_append split: list.splits)
  have free: "detach (length d) ?d = ?d"
    by (simp add: detach_def)
  show ?thesis
  proof (cases ys)
    case Nil
    then show ?thesis
      using pl kids free
      by (simp add: placeLinks_def pe' ns insertBefore_def appendChild_def Let_def
          nth_append list_update_append)
  next
    case (Cons n ys')
    have "n \<notin> set xs" "n \<noteq> el"
      using dist kids Cons by auto
    then have above: "\<And>x. x \<in> set xs \<Longrightarrow> x \<noteq> n" and ne: "el \<noteq> n"
      by auto
    have tw: "takeWhile (\<lambda>x. x \<noteq> n) (xs @ el # n # ys') = xs @ [el]"
      using ne by (simp add: takeWhile_append2 [OF above])
    have dw': "dropWhile (\<lambda>x. x \<noteq> n) (xs @ el # n # ys') = n # ys'"
      using ne by (simp add: dropWhile_append2 [OF above])
    show ?thesis
      using pl kids free Cons tw dw'
      by (simp add: placeLinks_def pe' ns insertBefore_def Let_def
          nth_append list_update_append)
  qed
qed

lemma placeLinks_child:
  assumes el: "el < length d" and par: "parentNode (d ! el) = None"
  shows "placeLinks el (length d) (d @ boxNode r (length d) None # rest) =
         d[el := (d ! el)\<lparr>childNodes := childNodes (d ! el) @ [length d]\<rparr>] @
         boxNode r (length d) (Some el) # rest"
proof -
  let ?d = "d @ boxNode r (length d) None # rest"
  have pe': "parentElement ?d el = None"
    using el par by (simp add: parentElement_def nth_append)
  have free: "detach (length d) ?d = ?d"
    by (simp add: detach_def)
  show ?thesis
    using el free
    by (simp add: placeLinks_def pe' appendChild_def Let_def nth_append list_update_append)
qed

lemma annotate_falsy:
  "(\<forall>r p. result = Some r \<and> price r = Some p \<longrightarrow> \<not> truthyNumber p) \<Longrightarrow> annotate s el result = s"
  by (auto simp: annotate_def split: option.splits)

lemma annotate_truthy:
  "price r = Some p \<Longrightarrow> truthyNumber p \<Longrightarrow>
   annotate s el (Some r) =
     s\<lparr>dom := placeLinks el (length (dom s))
                (dom s @ boxNode r (length (dom s)) None # innerNodes r p (length (dom s)))\<rparr>"
  by (simp add: annotate_def buildLinks_eq)

lemma descendants_leaf:
  assumes "r < length d" "childNodes (d ! r) = [t]" "t < length d" "childNodes (d ! t) = []"
  shows "subtree d r = [t]"
proof -
  have "r \<noteq> t" using assms by auto
  then have "2 \<le> length d" using assms(1,3) by arith
  then obtain k where k: "length d = Suc (Suc k)"
    by (metis Suc_le_D numeral_2_eq_2 Suc_le_mono)
  show ?thesis
    using assms by (simp add: subtree_def k)
qed

lemma textContent_leaf:
  assumes "r < length d" "childNodes (d ! r) = [t]" "t < length d" "childNodes (d ! t) = []"
    "\<not> isElement (d ! t)"
  shows "textContent d r = nodeData (d ! t)"
  using assms by (simp add: textContent_def descendants_leaf)

lemma innerNodes_front:
  "\<exists>rest. innerNodes r p n =
     linkNode n (Suc n) (case purchaseUrl r of None \<Rightarrow> ''null'' | Some u \<Rightarrow> u)
       ''moxfield-card-price'' # textNode (''$'' @ toFixed2 p) (Suc n) # rest"
  by (simp add: innerNodes_def)

lemma cluster_link:
  assumes "length old = n"
  shows "(old @ b # innerNodes r p n) ! Suc n =
     linkNode n (Suc n) (case purchaseUrl r of None \<Rightarrow> ''null'' | Some u \<Rightarrow> u) ''moxfield-card-price''"
proof -
  obtain rest where "innerNodes r p n =
     linkNode n (Suc n) (case purchaseUrl r of None \<Rightarrow> ''null'' | Some u \<Rightarrow> u)
       ''moxfield-card-price'' # textNode (''$'' @ toFixed2 p) (Suc n) # rest"
    using innerNodes_front by blast
  then show ?thesis
    using assms by (simp add: nth_append)
qed

lemma cluster_label:
  assumes "length old = n"
  shows "textContent (old @ b # innerNodes r p n) (Suc n) = ''$'' @ toFixed2 p"
proof -
  obtain rest where i: "innerNodes r p n =
     linkNode n (Suc n) (case purchaseUrl r of None \<Rightarrow> ''null'' | Some u \<Rightarrow> u)
       ''moxfield-card-price'' # textNode (''$'' @ toFixed2 p) (Suc n) # rest"
    using innerNodes_front by blast
  let ?d = "old @ b # innerNodes r p n"
  have l: "?d ! Suc n = linkNode n (Suc n) (case purchaseUrl r of None \<Rightarrow> ''null'' | Some u \<Rightarrow> u)
       ''moxfield-card-price''"
    and t: "?d ! Suc (Suc n) = textNode (''$'' @ toFixed2 p) (Suc n)"
    using assms by (simp_all add: i nth_append)
  have len: "Suc n < length ?d" "Suc (Suc n) < length ?d"
    unfolding i using assms by simp_all
  have "textContent ?d (Suc n) = nodeData (?d ! Suc (Suc n))"
    by (rule textContent_leaf [OF len(1) _ len(2)])
      (simp_all add: l t linkNode_def textNode_def isElement_def)
  then show ?thesis by (simp add: t textNode_def)
qed

lemma annotate_sibling:
  assumes el: "el < length (dom s)" and res: "price r = Some p" "truthyNumber p"
    and par: "parentElement (dom s) el = Some par"
    and kids: "childNodes (dom s ! par) = xs @ el # ys"
    and dist: "distinct (childNodes (dom s ! par))"
  shows "childNodes (dom (annotate s el (Some r)) ! par) = xs @ el # length (dom s) # ys \<and>
     (\<forall>i < length (dom s). i \<noteq> par \<longrightarrow> dom (annotate s el (Some r)) ! i = dom s ! i) \<and>
     attrs (dom (annotate s el (Some r)) ! el) = attrs (dom s ! el) \<and>
     dom (annotate s el (Some r)) ! length (dom s) = boxNode r (length (dom s)) (Some par) \<and>
     dom (annotate s el (Some r)) ! Suc (length (dom s)) =
       linkNode (length (dom s)) (Suc (length (dom s)))
         (case purchaseUrl r of None \<Rightarrow> ''null'' | Some u \<Rightarrow> u) ''moxfield-card-price'' \<and>
     textContent (dom (annotate s el (Some r))) (Suc (length (dom s))) = ''$'' @ toFixed2 p"
proof -
  let ?n = "length (dom s)"
  from par have pl: "par < ?n"
    by (auto simp: parentElement_def split: option.splits if_splits)
  have d: "dom (annotate s el (Some r)) =
      (dom s)[par := (dom s ! par)\<lparr>childNodes := xs @ el # ?n # ys\<rparr>] @
      boxNode r ?n (Some par) # innerNodes r p ?n"
    using annotate_truthy [OF res, of s el] placeLinks_sibling [OF el par kids dist]
    by simp
  have 1: "childNodes (dom (annotate s el (Some r)) ! par) = xs @ el # ?n # ys"
    using pl by (simp add: d nth_append)
  have 2: "\<forall>i < ?n. i \<noteq> par \<longrightarrow> dom (annotate s el (Some r)) ! i = dom s ! i"
    by (simp add: d nth_append)
  have 3: "attrs (dom (annotate s el (Some r)) ! el) = attrs (dom s ! el)"
  proof (cases "el = par")
    case True
    have "attrs (dom (annotate s el (Some r)) ! par) = attrs (dom s ! par)"
      using pl by (simp add: d nth_append)
    then show ?thesis
      unfolding True .
  next
    case False
    then show ?thesis
      using el by (simp add: d nth_append)
  qed
  have 4: "dom (annotate s el (Some r)) ! ?n = boxNode r ?n (Some par)"
    by (simp add: d nth_append)
  have 5: "dom (annotate s el (Some r)) ! Suc ?n =
      linkNode ?n (Suc ?n) (case purchaseUrl r of None \<Rightarrow> ''null'' | Some u \<Rightarrow> u)
        ''moxfield-card-price''"
    unfolding d by (rule cluster_link) simp
  have 6: "textContent (dom (annotate s el (Some r))) (Suc ?n) = ''$'' @ toFixed2 p"
    unfolding d by (rule cluster_label) simp
  from 1 2 3 4 5 6 show ?thesis by blast
qed

lemma annotate_child:
  assumes el: "el < length (dom s)" and res: "price r = Some p" "truthyNumber p"
    and par: "parentNode (dom s ! el) = None"
  shows "childNodes (dom (annotate s el (Some r)) ! el) = childNodes (dom s ! el) @ [length (dom s)] \<and>
     (\<forall>i < length (dom s). i \<noteq> el \<longrightarrow> dom (annotate s el (Some r)) ! i = dom s ! i) \<and>
     attrs (dom (annotate s el (Some r)) ! el) = attrs (dom s ! el) \<and>
     dom (annotate s el (Some r)) ! length (dom s) = boxNode r (length (dom s)) (Some el) \<and>
     dom (annotate s el (Some r)) ! Suc (length (dom s)) =
       linkNode (length (dom s)) (Suc (length (dom s)))
         (case purchaseUrl r of None \<Rightarrow> ''null'' | Some u \<Rightarrow> u) ''moxfield-card-price'' \<and>
     textContent (dom (annotate s el (Some r))) (Suc (length (dom s))) = ''$'' @ toFixed2 p"
proof -
  let ?n = "length (dom s)"
  have d: "dom (annotate s el (Some r)) =
      (dom s)[el := (dom s ! el)\<lparr>childNodes := childNodes (dom s ! el) @ [?n]\<rparr>] @
      boxNode r ?n (Some el) # innerNodes r p ?n"
    using annotate_truthy [OF res, of s el] placeLinks_child [OF el par]
    by simp
  have 1: "childNodes (dom (annotate s el (Some r)) ! el) = childNodes (dom s ! el) @ [?n]"
    using el by (simp add: d nth_append)
  have 2: "\<forall>i < ?n. i \<noteq> el \<longrightarrow> dom (annotate s el (Some r)) ! i = dom s ! i"
    by (simp add: d nth_append)
  have 3: "attrs (dom (annotate s el (Some r)) ! el) = attrs (dom s ! el)"
    using el by (simp add: d nth_append)
  have 4: "dom (annotate s el (Some r)) ! ?n = boxNode r ?n (Some el)"
    by (simp add: d nth_append)
  have 5: "dom (annotate s el (Some r)) ! Suc ?n =
      linkNode ?n (Suc ?n) (case purchaseUrl r of None \<Rightarrow> ''null'' | Some u \<Rightarrow> u)
        ''moxfield-card-price''"
    unfolding d by (rule cluster_link) simp
  have 6: "textContent (dom (annotate s el (Some r))) (Suc ?n) = ''$'' @ toFixed2 p"
    unfolding d by (rule cluster_label) simp
  from 1 2 3 4 5 6 show ?thesis by blast
qed

lemma annotate_rest:
  "priceCache (annotate s el result) = priceCache s \<and>
   requests (annotate s el result) = requests s \<and>
   console (annotate s el result) = console s \<and> root (annotate s el result) = root s"
  by (auto simp: annotate_def split: option.splits prod.splits)

lemma parseFloat_0: "parseFloat ''0'' = Finite 0"
  by (simp add: parseFloat_eval)

lemma parseFloat_0_00: "parseFloat ''0.00'' = Finite 0"
  by (simp add: parseFloat_eval)

lemma parseFloat_1_25: "parseFloat ''1.25'' = Finite (5 / 4)"
  by (simp add: parseFloat_eval)

lemma giveaway_min: "firstMinimum (parsedQuotes giveaway) = Some (Finite 0, ''shop/a'')"
  by (simp add: giveaway_def quotes_eval parseFloat_0_00 parseFloat_1_25)

lemma annotate_zero: "price r = Some (Finite 0) \<Longrightarrow> annotate s el (Some r) = s"
  by (simp add: annotate_def truthyNumber_def)

lemma addPriceToCard_resolved:
  assumes "\<not> truthyString (attrs (dom s ! el) ''data-price-added'')"
    and "getCardName (dom s) el = Some n" and "n \<noteq> []"
    and "priceCache s n = None" and "fetch (searchUrl n) = Some a" and "ok a"
    and "body a = Listing cs" and "cs \<noteq> []"
  shows "addPriceToCard fetch s el =
     annotate (s\<lparr>dom := markProcessed el (dom s), requests := requests s @ [searchUrl n],
                 priceCache := (priceCache s)(n \<mapsto> buildResult n cs)\<rparr>) el
       (Some (buildResult n cs))"
proof -
  let ?s1 = "s\<lparr>dom := markProcessed el (dom s)\<rparr>"
  have "getCardPrice fetch ?s1 n =
    (Some (buildResult n cs),
     ?s1\<lparr>requests := requests ?s1 @ [searchUrl n],
          priceCache := (priceCache ?s1)(n \<mapsto> buildResult n cs)\<rparr>)"
    using assms by (intro getCardPrice_listing [of ?s1 n fetch a cs]) simp_all
  then show ?thesis
    using assms(1,2,3)
    by (simp add: addPriceToCard_def Let_def getCardName_markProcessed truthyString_def)
qed

lemma toFixed2_9_99: "toFixed2 (Finite (999 / 100)) = ''9.99''"
  by code_simp

text \<open>
  C7, as claimed, fails: the result built from a printing priced \<open>0.00\<close> is not null and
  its price is present, yet the annotator inserts nothing.
\<close>

theorem annotate_zero_price_counterexample:
  "price (buildResult ''Sol Ring'' giveaway) = Some (Finite 0) \<and>
   dom (annotate gallery 1 (Some (buildResult ''Sol Ring'' giveaway))) = dom gallery"
proof -
  have z: "price (buildResult ''Sol Ring'' giveaway) = Some (Finite 0)"
    using buildResult_cheapest [of "''Sol Ring''" giveaway] by (simp add: giveaway_min)
  show ?thesis
    using z by (simp add: annotate_def truthyNumber_def)
qed

text \<open>
  C7, amended. For every element and result: if the result is null, or its price is
  absent or zero, the annotator changes nothing (so the marker stays). Otherwise it leaves
  the cache and the logs alone and inserts one link cluster: the container is the new node
  at the end of the store, its first link points to the purchase URL and reads \<open>$\<close>
  followed by the price with two decimals. When the element has a parent element, the
  container becomes the child right after the element in the parent's list of children
  and no other node that existed changes; when the element has no parent, the container
  is appended to the element's own children. The element's attributes, the marker among
  them, stay as they are.
\<close>

theorem annotate_inserts_cluster:
  "((\<forall>r p. result = Some r \<and> price r = Some p \<longrightarrow> \<not> truthyNumber p) \<longrightarrow>
      annotate s el result = s) \<and>
   (el < length (dom s) \<and> result = Some r \<and> price r = Some p \<and> truthyNumber p \<longrightarrow>
      priceCache (annotate s el result) = priceCache s \<and>
      requests (annotate s el result) = requests s \<and>
      console (annotate s el result) = console s \<and>
      (\<forall>par xs ys.
         parentElement (dom s) el = Some par \<and> childNodes (dom s ! par) = xs @ el # ys \<and>
         distinct (childNodes (dom s ! par)) \<longrightarrow>
           childNodes (dom (annotate s el result) ! par) = xs @ el # length (dom s) # ys \<and>
           (\<forall>i < length (dom s). i \<noteq> par \<longrightarrow> dom (annotate s el result) ! i = dom s ! i) \<and>
           attrs (dom (annotate s el result) ! el) = attrs (dom s ! el) \<and>
           dom (annotate s el result) ! length (dom s) = boxNode r (length (dom s)) (Some par) \<and>
           dom (annotate s el result) ! Suc (length (dom s)) =
             linkNode (length (dom s)) (Suc (length (dom s)))
               (case purchaseUrl r of None \<Rightarrow> ''null'' | Some u \<Rightarrow> u) ''moxfield-card-price'' \<and>
           textContent (dom (annotate s el result)) (Suc (length (dom s))) = ''$'' @ toFixed2 p) \<and>
      (parentNode (dom s ! el) = None \<longrightarrow>
           childNodes (dom (annotate s el result) ! el) = childNodes (dom s ! el) @ [length (dom s)] \<and>
           (\<forall>i < length (dom s). i \<noteq> el \<longrightarrow> dom (annotate s el result) ! i = dom s ! i) \<and>
           attrs (dom (annotate s el result) ! el) = attrs (dom s ! el) \<and>
           dom (annotate s el result) ! length (dom s) = boxNode r (length (dom s)) (Some el) \<and>
           dom (annotate s el result) ! Suc (length (dom s)) =
             linkNode (length (dom s)) (Suc (length (dom s)))
               (case purchaseUrl r of None \<Rightarrow> ''null'' | Some u \<Rightarrow> u) ''moxfield-card-price'' \<and>
           textContent (dom (annotate s el result)) (Suc (length (dom s))) = ''$'' @ toFixed2 p))"
proof -
  have A: "(\<forall>r p. result = Some r \<and> price r = Some p \<longrightarrow> \<not> truthyNumber p) \<longrightarrow>
      annotate s el result = s"
    using annotate_falsy [of result s el] by blast
  have B: ?thesis if h: "el < length (dom s)" "result = Some r" "price r = Some p" "truthyNumber p"
    using A annotate_rest [of s el result]
      annotate_sibling [OF h(1,3,4)] annotate_child [OF h(1,3,4)]
    unfolding h(2) by (intro conjI impI allI) blast+
  show ?thesis
    using A B by blast
qed

theorem annotate_inserts_cluster_witness:
  "1 < length (dom gallery) \<and> price solRing = Some (Finite (999 / 100)) \<and>
   truthyNumber (Finite (999 / 100)) \<and>
   parentElement (dom gallery) 1 = Some 0 \<and>
   childNodes (dom gallery ! 0) = [1, 3, 4] \<and>
   childNodes (dom (annotate gallery 1 (Some solRing)) ! 0) = [1, 5, 3, 4] \<and>
   textContent (dom (annotate gallery 1 (Some solRing))) 6 = ''$9.99'' \<and>
   attrs (dom (annotate gallery 1 (Some solRing)) ! 6) ''href'' = Some ''shop/a'' \<and>
   annotate gallery 1 None = gallery \<and>
   parentNode (dom orphan ! 0) = None \<and>
   childNodes (dom (annotate orphan 0 (Some solRing)) ! 0) = [1] \<and>
   attrs (dom (annotate orphan 0 (Some solRing)) ! 0) ''data-price-added'' = Some ''true''"
proof -
  let ?p = "Finite (999 / 100)"
  have len: "1 < length (dom gallery)" and n5: "length (dom gallery) = 5"
    by (simp_all add: gallery_def galleryDom_def)
  have pr: "price solRing = Some ?p" and pu: "purchaseUrl solRing = Some ''shop/a''"
    by (simp_all add: solRing_def)
  have tr: "truthyNumber ?p"
    by (simp add: truthyNumber_def)
  have pe: "parentElement (dom gallery) 1 = Some 0"
    by (simp add: dom_eval)
  have kids: "childNodes (dom gallery ! 0) = [] @ 1 # [3, 4]"
    by (simp add: dom_eval)
  have dist: "distinct (childNodes (dom gallery ! 0))"
    by (simp add: dom_eval)
  note t = annotate_inserts_cluster [of "Some solRing" gallery 1 solRing ?p]
  from t len pr tr pe kids dist
  have g: "childNodes (dom (annotate gallery 1 (Some solRing)) ! 0) =
       [] @ 1 # length (dom gallery) # [3, 4] \<and>
     dom (annotate gallery 1 (Some solRing)) ! Suc (length (dom gallery)) =
       linkNode (length (dom gallery)) (Suc (length (dom gallery)))
         (case purchaseUrl solRing of None \<Rightarrow> ''null'' | Some u \<Rightarrow> u) ''moxfield-card-price'' \<and>
     textContent (dom (annotate gallery 1 (Some solRing))) (Suc (length (dom gallery))) =
       ''$'' @ toFixed2 ?p"
    by blast
  have six: "Suc (length (dom gallery)) = 6"
    by (simp add: n5)
  from g have g1: "childNodes (dom (annotate gallery 1 (Some solRing)) ! 0) = [1, 5, 3, 4]"
    and g2: "textContent (dom (annotate gallery 1 (Some solRing))) 6 = ''$9.99''"
    and g3: "attrs (dom (annotate gallery 1 (Some solRing)) ! 6) ''href'' = Some ''shop/a''"
    unfolding six by (simp_all add: n5 pu toFixed2_9_99 linkNode_def)
  have n: "annotate gallery 1 None = gallery"
    using annotate_inserts_cluster [of None gallery 1] by blast
  have olen: "0 < length (dom orphan)" and o1: "length (dom orphan) = 1"
    and opar: "parentNode (dom orphan ! 0) = None"
    and oattr: "attrs (dom orphan ! 0) ''data-price-added'' = Some ''true''"
    and okids: "childNodes (dom orphan ! 0) = []"
    by (simp_all add: orphan_def orphanDom_def element_def)
  from annotate_inserts_cluster [of "Some solRing" orphan 0 solRing ?p] olen opar pr tr
  have o: "childNodes (dom (annotate orphan 0 (Some solRing)) ! 0) =
       childNodes (dom orphan ! 0) @ [length (dom orphan)] \<and>
     attrs (dom (annotate orphan 0 (Some solRing)) ! 0) = attrs (dom orphan ! 0)"
    by blast
  then have o': "childNodes (dom (annotate orphan 0 (Some solRing)) ! 0) = [1]"
    "attrs (dom (annotate orphan 0 (Some solRing)) ! 0) ''data-price-added'' = Some ''true''"
    by (simp_all add: o1 okids oattr)
  have kids': "childNodes (dom gallery ! 0) = [1, 3, 4]"
    using kids by simp
  show ?thesis
    using len pr tr pe kids' g1 g2 g3 n opar o' by blast
qed

text \<open>
  C10. A result whose price is zero makes the annotator insert nothing. The scan of the
  printings does select such a price: when the cheapest parseable facet of the answer is
  zero (the strings \<open>0\<close> and \<open>0.00\<close> parse to zero), \<open>addPriceToCard\<close> marks the element,
  sends the request and stores the result with price zero in the cache, and the DOM gets
  no link cluster.
\<close>

theorem zero_price_not_shown:
  "(price r = Some (Finite 0) \<longrightarrow> annotate s el (Some r) = s) \<and>
   (\<not> truthyString (attrs (dom s ! el) ''data-price-added'') \<and>
    getCardName (dom s) el = Some n \<and> n \<noteq> [] \<and> priceCache s n = None \<and>
    fetch (searchUrl n) = Some a \<and> ok a \<and> body a = Listing cs \<and> cs \<noteq> [] \<and>
    firstMinimum (parsedQuotes cs) = Some (Finite 0, u) \<longrightarrow>
      price (buildResult n cs) = Some (Finite 0) \<and>
      addPriceToCard fetch s el =
        s\<lparr>dom := markProcessed el (dom s), requests := requests s @ [searchUrl n],
          priceCache := (priceCache s)(n \<mapsto> buildResult n cs)\<rparr>) \<and>
   parseFloat ''0'' = Finite 0 \<and> parseFloat ''0.00'' = Finite 0"
proof -
  have A: "price r = Some (Finite 0) \<longrightarrow> annotate s el (Some r) = s"
    using annotate_zero [of r s el] by blast
  have B: "price (buildResult n cs) = Some (Finite 0) \<and>
      addPriceToCard fetch s el =
        s\<lparr>dom := markProcessed el (dom s), requests := requests s @ [searchUrl n],
          priceCache := (priceCache s)(n \<mapsto> buildResult n cs)\<rparr>"
    if h: "\<not> truthyString (attrs (dom s ! el) ''data-price-added'')"
      "getCardName (dom s) el = Some n" "n \<noteq> []" "priceCache s n = None"
      "fetch (searchUrl n) = Some a" "ok a" "body a = Listing cs" "cs \<noteq> []"
      "firstMinimum (parsedQuotes cs) = Some (Finite 0, u)"
  proof -
    have z: "price (buildResult n cs) = Some (Finite 0)"
      using buildResult_cheapest [of n cs] h(9) by simp
    show ?thesis
      using addPriceToCard_resolved [of s el n fetch a cs] h(1-8) z annotate_zero [OF z]
      by simp
  qed
  show ?thesis
    using A B parseFloat_0 parseFloat_0_00 by blast
qed

theorem zero_price_not_shown_witness:
  "\<not> truthyString (attrs (dom gallery ! 1) ''data-price-added'') \<and>
   getCardName (dom gallery) 1 = Some ''Sol Ring'' \<and>
   priceCache gallery ''Sol Ring'' = None \<and>
   giveaway \<noteq> [] \<and>
   firstMinimum (parsedQuotes giveaway) = Some (Finite 0, ''shop/a'') \<and>
   price (buildResult ''Sol Ring'' giveaway) = Some (Finite 0) \<and>
   addPriceToCard (answering giveaway) gallery 1 =
     gallery\<lparr>dom := markProcessed 1 (dom gallery), requests := [searchUrl ''Sol Ring''],
       priceCache := [''Sol Ring'' \<mapsto> buildResult ''Sol Ring'' giveaway]\<rparr> \<and>
   length (dom (addPriceToCard (answering giveaway) gallery 1)) = length (dom gallery)"
proof -
  let ?a = "\<lparr>ok = True, status = 200, body = Listing giveaway\<rparr>"
  have un: "\<not> truthyString (attrs (dom gallery ! 1) ''data-price-added'')"
    using gallery_unmarked(2) by (simp add: truthyString_def)
  have miss: "priceCache gallery ''Sol Ring'' = None" and rq: "requests gallery = []"
    and pc: "priceCache gallery = Map.empty"
    by (simp_all add: gallery_def)
  have ans: "answering giveaway (searchUrl ''Sol Ring'') = Some ?a"
    by (simp add: answering_def)
  have a: "ok ?a" "body ?a = Listing giveaway"
    by simp_all
  have ne: "giveaway \<noteq> []" "''Sol Ring'' \<noteq> []"
    by (simp_all add: giveaway_def)
  note t = zero_price_not_shown [where s = gallery and el = 1 and n = "''Sol Ring''"
      and fetch = "answering giveaway" and a = ?a and cs = giveaway and u = "''shop/a''"]
  from t un gallery_name_1 miss ans a ne giveaway_min
  have c: "price (buildResult ''Sol Ring'' giveaway) = Some (Finite 0) \<and>
      addPriceToCard (answering giveaway) gallery 1 =
        gallery\<lparr>dom := markProcessed 1 (dom gallery),
          requests := requests gallery @ [searchUrl ''Sol Ring''],
          priceCache := (priceCache gallery)(''Sol Ring'' \<mapsto> buildResult ''Sol Ring'' giveaway)\<rparr>"
    by blast
  then have step: "addPriceToCard (answering giveaway) gallery 1 =
     gallery\<lparr>dom := markProcessed 1 (dom gallery), requests := [searchUrl ''Sol Ring''],
       priceCache := [''Sol Ring'' \<mapsto> buildResult ''Sol Ring'' giveaway]\<rparr>"
    by (simp add: rq pc)
  have ln: "length (dom (addPriceToCard (answering giveaway) gallery 1)) = length (dom gallery)"
    unfolding step by simp
  show ?thesis
    using un gallery_name_1 miss ne(1) giveaway_min c step ln by blast
qed

section \<open>A failed lookup and the next scan\<close>

text \<open>The two parts of a call, run one after the other, are the call.\<close>

lemma getCardPrice_receive:
  "priceCache s n = None \<Longrightarrow>
   getCardPrice fetch s n = receiveAnswer fetch (s\<lparr>requests := requests s @ [searchUrl n]\<rparr>) n"
  by (simp add: getCardPrice_def receiveAnswer_def Let_def split: sum.splits option.splits)

lemma addPriceToCard_phases:
  "addPriceToCard fetch s el =
     (case startCard (s, []) el of (s1, waiting) \<Rightarrow> foldl (finishCard fetch) s1 waiting)"
proof (cases "truthyString (attrs (dom s ! el) ''data-price-added'')")
  case True
  then show ?thesis by (simp add: addPriceToCard_def startCard_def)
next
  case False
  let ?s1 = "s\<lparr>dom := markProcessed el (dom s)\<rparr>"
  show ?thesis
  proof (cases "truthyString (getCardName (dom ?s1) el)")
    case nameless: False
    then show ?thesis
      using False by (simp add: addPriceToCard_def startCard_def Let_def)
  next
    case named: True
    let ?n = "the (getCardName (dom ?s1) el)"
    show ?thesis
    proof (cases "priceCache ?s1 ?n")
      case None
      then show ?thesis
        using False named getCardPrice_receive [of ?s1 ?n fetch]
        by (simp add: addPriceToCard_def startCard_def Let_def finishCard_def)
    next
      case (Some cached)
      then show ?thesis
        using False named
        by (simp add: addPriceToCard_def startCard_def Let_def finishCard_def getCardPrice_def)
    qed
  qed
qed

lemma processCards_nothing_selected:
  "querySelectorAll (dom s) (root s) cardSelector = [] \<Longrightarrow> processCards fetch s = s"
  by (simp add: processCards_def)

lemma startCard_marked:
  "truthyString (attrs (dom s ! el) ''data-price-added'') \<Longrightarrow>
   startCard (s, waiting) el = (s, waiting)"
  by (simp add: startCard_def)

lemma addPriceToCard_failed:
  assumes "\<not> truthyString (attrs (dom s ! el) ''data-price-added'')"
    and "getCardName (dom s) el = Some n" and "n \<noteq> []"
    and "priceCache s n = None" and "readAnswer n (fetch (searchUrl n)) = Inl e"
  shows "addPriceToCard fetch s el =
     s\<lparr>dom := markProcessed el (dom s), requests := requests s @ [searchUrl n],
       console := console s @ [(errorMessage n, e)]\<rparr>"
proof -
  let ?s1 = "s\<lparr>dom := markProcessed el (dom s)\<rparr>"
  have "getCardPrice fetch ?s1 n =
    (None, ?s1\<lparr>requests := requests ?s1 @ [searchUrl n],
               console := console ?s1 @ [(errorMessage n, e)]\<rparr>)"
    using assms(4,5) by (intro getCardPrice_error) simp_all
  then show ?thesis
    using assms(1,2,3)
    by (simp add: addPriceToCard_def Let_def getCardName_markProcessed truthyString_def
        annotate_def)
qed

lemma gallery_spoiler: "isSpoilerViewMode gallery"
  by (simp add: isSpoilerViewMode_def dom_eval)

lemma gallery_start:
  "foldl startCard (gallery, []) [1, 3] =
     (gallery\<lparr>dom := markProcessed 3 (markProcessed 1 (dom gallery)),
        requests := [searchUrl ''Sol Ring'']\<rparr>, [Requested 1 ''Sol Ring''])"
proof -
  have pc: "priceCache gallery = Map.empty" and rq: "requests gallery = []"
    by (simp_all add: gallery_def)
  have un1: "\<not> truthyString (attrs (dom gallery ! 1) ''data-price-added'')"
    using gallery_unmarked(2) by (simp add: truthyString_def)
  have a: "startCard (gallery, []) 1 =
     (gallery\<lparr>dom := markProcessed 1 (dom gallery), requests := [searchUrl ''Sol Ring'']\<rparr>,
      [Requested 1 ''Sol Ring''])"
    using un1 gallery_name_1
    by (simp add: startCard_def Let_def getCardName_markProcessed truthyString_def pc rq)
  have len: "1 < length (dom gallery)"
    by (simp add: gallery_def galleryDom_def)
  have un3: "\<not> truthyString (attrs (markProcessed 1 (dom gallery) ! 3) ''data-price-added'')"
    using gallery_unmarked(1) by (simp add: markProcessed_nth truthyString_def)
  have b: "startCard (gallery\<lparr>dom := markProcessed 1 (dom gallery),
        requests := [searchUrl ''Sol Ring'']\<rparr>, [Requested 1 ''Sol Ring'']) 3 =
     (gallery\<lparr>dom := markProcessed 3 (markProcessed 1 (dom gallery)),
        requests := [searchUrl ''Sol Ring'']\<rparr>, [Requested 1 ''Sol Ring''])"
    using un3 gallery_name_3
    by (simp add: startCard_def Let_def getCardName_markProcessed truthyString_def)
  show ?thesis
    by (simp only: foldl_Cons foldl_Nil a b)
qed

lemma gallery_first_scan: "processCards unreachable gallery = failedGallery"
proof -
  have quiet: "console gallery = []"
    by (simp add: gallery_def)
  show ?thesis
    unfolding processCards_def gallery_cards gallery_start
    using gallery_spoiler
    by (simp add: isCached_def finishCard_def receiveAnswer_def readAnswer_def unreachable_def
        annotate_def failedGallery_def quiet)
qed

lemma failedGallery_selection:
  "querySelectorAll (dom failedGallery) (root failedGallery) cardSelector = []"
  by (simp add: failedGallery_def querySelectorAll_def markProcessed_nth dom_eval)

lemma failedGallery_second_scan: "processCards fetch failedGallery = failedGallery"
  using failedGallery_selection by (rule processCards_nothing_selected)

text \<open>Two cards of one name, neither cached: the scan sends two requests.\<close>

lemma twins_two_requests:
  "requests (processCards (answering foilCheaper) twins) =
     [searchUrl ''Sol Ring'', searchUrl ''Sol Ring'']"
proof -
  have sel: "querySelectorAll (dom twins) (root twins) cardSelector = [1, 3]"
    and sp: "isSpoilerViewMode twins"
    and n1: "getCardName (dom twins) 1 = Some ''Sol Ring''"
    and n3: "getCardName (dom twins) 3 = Some ''Sol Ring''"
    and un: "attrs (dom twins ! 1) ''data-price-added'' = None"
      "attrs (dom twins ! 3) ''data-price-added'' = None"
    by (simp_all add: isSpoilerViewMode_def twins_def twinDom_def dom_eval)
  have pc: "priceCache twins = Map.empty" and rq: "requests twins = []"
    by (simp_all add: twins_def)
  have a: "startCard (twins, []) 1 =
     (twins\<lparr>dom := markProcessed 1 (dom twins), requests := [searchUrl ''Sol Ring'']\<rparr>,
      [Requested 1 ''Sol Ring''])"
    using un(1) n1
    by (simp add: startCard_def Let_def getCardName_markProcessed truthyString_def pc rq)
  have un3: "\<not> truthyString (attrs (markProcessed 1 (dom twins) ! 3) ''data-price-added'')"
    using un(2) by (simp add: markProcessed_nth truthyString_def)
  have b: "startCard (twins\<lparr>dom := markProcessed 1 (dom twins),
        requests := [searchUrl ''Sol Ring'']\<rparr>, [Requested 1 ''Sol Ring'']) 3 =
     (twins\<lparr>dom := markProcessed 3 (markProcessed 1 (dom twins)),
        requests := [searchUrl ''Sol Ring'', searchUrl ''Sol Ring'']\<rparr>,
      [Requested 1 ''Sol Ring'', Requested 3 ''Sol Ring''])"
    using un3 n3
    by (simp add: startCard_def Let_def getCardName_markProcessed truthyString_def pc)
  have st: "foldl startCard (twins, []) [1, 3] =
     (twins\<lparr>dom := markProcessed 3 (markProcessed 1 (dom twins)),
        requests := [searchUrl ''Sol Ring'', searchUrl ''Sol Ring'']\<rparr>,
      [Requested 1 ''Sol Ring'', Requested 3 ''Sol Ring''])"
    by (simp only: foldl_Cons foldl_Nil a b)
  have keep: "requests (finishCard fetch s p) = requests s" for fetch s p
    using annotate_rest
    by (auto simp: finishCard_def receiveAnswer_def split: resolution.splits sum.splits
        option.splits prod.splits)
  have keeps: "requests (foldl (finishCard fetch) s ps) = requests s" for fetch s ps
    by (induction ps arbitrary: s) (simp_all add: keep)
  show ?thesis
    unfolding processCards_def sel st using sp by (simp add: keeps)
qed

text \<open>
  C3, as claimed, fails: the first card of the gallery is selected by a scan and has the
  name \<open>Sol Ring\<close>; the scan runs while the network is unreachable, so the request fails,
  the error is logged and the cache stays empty. The next scan, with the network back and
  the page still in spoiler mode, changes nothing: it sends no request and the card gets
  no price.
\<close>

theorem failed_lookup_retried_counterexample:
  "isSpoilerViewMode gallery \<and>
   1 \<in> set (querySelectorAll (dom gallery) (root gallery) cardSelector) \<and>
   getCardName (dom gallery) 1 = Some ''Sol Ring'' \<and>
   requests (processCards unreachable gallery) = [searchUrl ''Sol Ring''] \<and>
   console (processCards unreachable gallery) = [(errorMessage ''Sol Ring'', NetworkError)] \<and>
   priceCache (processCards unreachable gallery) ''Sol Ring'' = None \<and>
   isSpoilerViewMode (processCards unreachable gallery) \<and>
   processCards (answering foilCheaper) (processCards unreachable gallery) =
     processCards unreachable gallery"
proof -
  have sp: "isSpoilerViewMode failedGallery"
    by (simp add: isSpoilerViewMode_def failedGallery_def querySelectorAll_def dom_eval)
  have f: "requests failedGallery = [searchUrl ''Sol Ring'']"
    "console failedGallery = [(errorMessage ''Sol Ring'', NetworkError)]"
    "priceCache failedGallery ''Sol Ring'' = None"
    by (simp_all add: failedGallery_def gallery_def)
  show ?thesis
    using gallery_spoiler gallery_cards gallery_name_1 sp f
    by (simp add: gallery_first_scan failedGallery_second_scan)
qed

text \<open>
  C3, amended. When the name is not cached and the request fails (the network is
  unreachable or the status is not a success), \<open>getCardPrice\<close> returns null, writes one
  entry to the error log and leaves the cache and the DOM as they were, so the next call
  of \<open>getCardPrice\<close> for the name sends the request again. But the card element whose
  lookup failed carries the marker by then: \<open>addPriceToCard\<close> on it has changed nothing
  but the marker and the two logs, a later scan does not select it, neither part of a
  later call does anything for it, and a scan that finds no unmarked card changes
  nothing. The lookup is retried only for another, unmarked element of that name.
\<close>

theorem failed_lookup_not_retried:
  assumes "priceCache s n = None"
    and "fetch (searchUrl n) = None \<or> (\<exists>r. fetch (searchUrl n) = Some r \<and> \<not> ok r)"
  shows "fst (getCardPrice fetch s n) = None \<and>
         (\<exists>e. console (snd (getCardPrice fetch s n)) = console s @ [(errorMessage n, e)]) \<and>
         priceCache (snd (getCardPrice fetch s n)) = priceCache s \<and>
         dom (snd (getCardPrice fetch s n)) = dom s \<and>
         requests (snd (getCardPrice fetch s n)) = requests s @ [searchUrl n] \<and>
         requests (snd (getCardPrice fetch' (snd (getCardPrice fetch s n)) n)) =
           requests s @ [searchUrl n, searchUrl n] \<and>
         (el < length (dom s) \<and> \<not> truthyString (attrs (dom s ! el) ''data-price-added'') \<and>
          getCardName (dom s) el = Some n \<and> n \<noteq> [] \<longrightarrow>
            (\<exists>e. addPriceToCard fetch s el =
               s\<lparr>dom := markProcessed el (dom s), requests := requests s @ [searchUrl n],
                 console := console s @ [(errorMessage n, e)]\<rparr>) \<and>
            el \<notin> set (querySelectorAll (dom (addPriceToCard fetch s el))
                        (root (addPriceToCard fetch s el)) cardSelector) \<and>
            startCard (addPriceToCard fetch s el, waiting) el =
              (addPriceToCard fetch s el, waiting) \<and>
            addPriceToCard fetch' (addPriceToCard fetch s el) el = addPriceToCard fetch s el \<and>
            (querySelectorAll (dom (addPriceToCard fetch s el))
                 (root (addPriceToCard fetch s el)) cardSelector = [] \<longrightarrow>
               processCards fetch' (addPriceToCard fetch s el) = addPriceToCard fetch s el))"
proof -
  from assms(2) obtain e where e: "readAnswer n (fetch (searchUrl n)) = Inl e"
    by (auto simp: readAnswer_def)
  then have g: "getCardPrice fetch s n =
      (None, s\<lparr>requests := requests s @ [searchUrl n],
               console := console s @ [(errorMessage n, e)]\<rparr>)"
    using getCardPrice_error [of s n fetch e] assms(1) by simp
  have A: "fst (getCardPrice fetch s n) = None \<and>
         (\<exists>e. console (snd (getCardPrice fetch s n)) = console s @ [(errorMessage n, e)]) \<and>
         priceCache (snd (getCardPrice fetch s n)) = priceCache s \<and>
         dom (snd (getCardPrice fetch s n)) = dom s \<and>
         requests (snd (getCardPrice fetch s n)) = requests s @ [searchUrl n] \<and>
         requests (snd (getCardPrice fetch' (snd (getCardPrice fetch s n)) n)) =
           requests s @ [searchUrl n, searchUrl n]"
    using g getCardPrice_miss_requests [of "snd (getCardPrice fetch s n)" n fetch'] assms(1)
    by auto
  have B: "(\<exists>e. addPriceToCard fetch s el =
               s\<lparr>dom := markProcessed el (dom s), requests := requests s @ [searchUrl n],
                 console := console s @ [(errorMessage n, e)]\<rparr>) \<and>
            el \<notin> set (querySelectorAll (dom (addPriceToCard fetch s el))
                        (root (addPriceToCard fetch s el)) cardSelector) \<and>
            startCard (addPriceToCard fetch s el, waiting) el =
              (addPriceToCard fetch s el, waiting) \<and>
            addPriceToCard fetch' (addPriceToCard fetch s el) el = addPriceToCard fetch s el \<and>
            (querySelectorAll (dom (addPriceToCard fetch s el))
                 (root (addPriceToCard fetch s el)) cardSelector = [] \<longrightarrow>
               processCards fetch' (addPriceToCard fetch s el) = addPriceToCard fetch s el)"
    if h: "el < length (dom s)" "\<not> truthyString (attrs (dom s ! el) ''data-price-added'')"
      "getCardName (dom s) el = Some n" "n \<noteq> []"
  proof -
    let ?s' = "s\<lparr>dom := markProcessed el (dom s), requests := requests s @ [searchUrl n],
                 console := console s @ [(errorMessage n, e)]\<rparr>"
    have step: "addPriceToCard fetch s el = ?s'"
      using addPriceToCard_failed [of s el n fetch e] h(2,3,4) assms(1) e by blast
    have mark: "truthyString (attrs (dom ?s' ! el) ''data-price-added'')"
      using h(1) by (simp add: markProcessed_nth truthyString_def)
    have out: "el \<notin> set (querySelectorAll (dom ?s') (root ?s') cardSelector)"
      using cardSelector_marked [OF h(1)] by (auto simp: querySelectorAll_def)
    have st: "startCard (?s', waiting) el = (?s', waiting)"
      using mark by (rule startCard_marked)
    have again: "addPriceToCard fetch' ?s' el = ?s'"
      using mark by (simp add: addPriceToCard_def)
    have scan: "querySelectorAll (dom ?s') (root ?s') cardSelector = [] \<longrightarrow>
        processCards fetch' ?s' = ?s'"
      using processCards_nothing_selected [of ?s' fetch'] by blast
    show ?thesis
      unfolding step using out st again scan by blast
  qed
  show ?thesis
    using A B by blast
qed

theorem failed_lookup_not_retried_witness:
  "priceCache gallery ''Sol Ring'' = None \<and>
   unreachable (searchUrl ''Sol Ring'') = None \<and>
   1 < length (dom gallery) \<and>
   \<not> truthyString (attrs (dom gallery ! 1) ''data-price-added'') \<and>
   getCardName (dom gallery) 1 = Some ''Sol Ring'' \<and>
   fst (getCardPrice unreachable gallery ''Sol Ring'') = None \<and>
   priceCache (snd (getCardPrice unreachable gallery ''Sol Ring'')) = priceCache gallery \<and>
   requests (snd (getCardPrice (answering foilCheaper)
      (snd (getCardPrice unreachable gallery ''Sol Ring'')) ''Sol Ring'')) =
     [searchUrl ''Sol Ring'', searchUrl ''Sol Ring''] \<and>
   1 \<notin> set (querySelectorAll (dom (addPriceToCard unreachable gallery 1))
              (root (addPriceToCard unreachable gallery 1)) cardSelector) \<and>
   addPriceToCard (answering foilCheaper) (addPriceToCard unreachable gallery 1) 1 =
     addPriceToCard unreachable gallery 1 \<and>
   requests (addPriceToCard unreachable gallery 1) = [searchUrl ''Sol Ring'']"
proof -
  have miss: "priceCache gallery ''Sol Ring'' = None" and rq: "requests gallery = []"
    by (simp_all add: gallery_def)
  have down: "unreachable (searchUrl ''Sol Ring'') = None"
    by (simp add: unreachable_def)
  have fails: "unreachable (searchUrl ''Sol Ring'') = None \<or>
      (\<exists>r. unreachable (searchUrl ''Sol Ring'') = Some r \<and> \<not> ok r)"
    using down by blast
  have len: "1 < length (dom gallery)"
    by (simp add: gallery_def galleryDom_def)
  have un: "\<not> truthyString (attrs (dom gallery ! 1) ''data-price-added'')"
    using gallery_unmarked(2) by (simp add: truthyString_def)
  have ne: "''Sol Ring'' \<noteq> []"
    by simp
  note t = failed_lookup_not_retried [where s = gallery and n = "''Sol Ring''"
      and fetch = unreachable and fetch' = "answering foilCheaper" and el = 1]
  from t miss fails have a: "fst (getCardPrice unreachable gallery ''Sol Ring'') = None"
    and b: "priceCache (snd (getCardPrice unreachable gallery ''Sol Ring'')) = priceCache gallery"
    and c: "requests (snd (getCardPrice (answering foilCheaper)
      (snd (getCardPrice unreachable gallery ''Sol Ring'')) ''Sol Ring'')) =
      requests gallery @ [searchUrl ''Sol Ring'', searchUrl ''Sol Ring'']"
    by blast+
  from t miss fails len un gallery_name_1 ne
  have d: "1 \<notin> set (querySelectorAll (dom (addPriceToCard unreachable gallery 1))
              (root (addPriceToCard unreachable gallery 1)) cardSelector)"
    and e: "addPriceToCard (answering foilCheaper) (addPriceToCard unreachable gallery 1) 1 =
       addPriceToCard unreachable gallery 1"
    and f: "\<exists>e. addPriceToCard unreachable gallery 1 =
       gallery\<lparr>dom := markProcessed 1 (dom gallery),
         requests := requests gallery @ [searchUrl ''Sol Ring''],
         console := console gallery @ [(errorMessage ''Sol Ring'', e)]\<rparr>"
    by blast+
  from f have g: "requests (addPriceToCard unreachable gallery 1) = [searchUrl ''Sol Ring'']"
    by (auto simp: rq)
  from c have c': "requests (snd (getCardPrice (answering foilCheaper)
      (snd (getCardPrice unreachable gallery ''Sol Ring'')) ''Sol Ring'')) =
      [searchUrl ''Sol Ring'', searchUrl ''Sol Ring'']"
    by (simp add: rq)
  show ?thesis
    using miss down len un gallery_name_1 a b c' d e g by blast
qed

section \<open>Debouncing\<close>

lemma notify_idle: "armed (notify idle t) t \<and> scans (notify idle t) = []"
  by (simp add: armed_def notify_def onMutation_def setTimeout_def clearTimeout_def
      runTimers_def idle_def)

lemma notify_armed:
  assumes "armed l t" and "t \<le> t'" and "t' < t + 300"
  shows "armed (notify l t') t' \<and> scans (notify l t') = scans l"
proof -
  from assms(1) obtain i where p: "pending l = [(i, t + 300)]" and o: "observerTimeout l = Some i"
    unfolding armed_def by blast
  show ?thesis
    using assms(2,3)
    by (simp add: armed_def notify_def onMutation_def setTimeout_def clearTimeout_def
        runTimers_def p o)
qed

lemma foldl_notify_armed:
  assumes "armed l t" and "successively (\<lambda>a b. a \<le> b \<and> b < a + 300) (t # ts)"
  shows "armed (foldl notify l ts) (last (t # ts)) \<and> scans (foldl notify l ts) = scans l"
  using assms
proof (induction ts arbitrary: l t)
  case Nil
  then show ?case by simp
next
  case (Cons t' ts)
  from Cons.prems(2) have gap: "t \<le> t'" "t' < t + 300"
    and rest: "successively (\<lambda>a b. a \<le> b \<and> b < a + 300) (t' # ts)"
    by simp_all
  from notify_armed [OF Cons.prems(1) gap]
  have a: "armed (notify l t') t'" and s: "scans (notify l t') = scans l"
    by simp_all
  from Cons.IH [OF a rest] s show ?case by simp
qed

lemma drain_armed: "armed l t \<Longrightarrow> scans (drain l) = scans l @ [t + 300]"
  by (auto simp: armed_def drain_def)

lemma two_bursts: "scanTimes [0, 100, 400, 450] = [400, 750]"
  by (simp add: scanTimes_def notify_def onMutation_def setTimeout_def clearTimeout_def
      runTimers_def drain_def idle_def)

text \<open>
  C9. When the notifications of a burst arrive each less than 300 units after the one
  before, \<open>processCards\<close> is called exactly once, 300 units after the last notification:
  every notification clears the pending timer and sets a new one. Ten notifications 50
  units apart, the last at 1450, give one call at 1750.
\<close>

theorem burst_one_scan:
  assumes "burst ts"
  shows "scanTimes ts = [last ts + 300]"
proof -
  from assms obtain t ts' where ts: "ts = t # ts'"
    and gaps: "successively (\<lambda>a b. a \<le> b \<and> b < a + 300) (t # ts')"
    by (cases ts) (auto simp: burst_def)
  from notify_idle [of t] have a: "armed (notify idle t) t" and s: "scans (notify idle t) = []"
    by simp_all
  from foldl_notify_armed [OF a gaps] s
  have "armed (foldl notify idle ts) (last ts)" and "scans (foldl notify idle ts) = []"
    by (simp_all add: ts)
  then show ?thesis
    using drain_armed [of "foldl notify idle ts" "last ts"] by (simp add: scanTimes_def)
qed

theorem burst_one_scan_witness:
  "burst tenMutations \<and> last tenMutations = 1450 \<and> scanTimes tenMutations = [1750]"
proof -
  have l: "tenMutations = [1000, 1050, 1100, 1150, 1200, 1250, 1300, 1350, 1400, 1450]"
    by (simp add: tenMutations_def upt_conv_Cons)
  have b: "burst tenMutations"
    unfolding l by (simp add: burst_def)
  have la: "last tenMutations = 1450"
    unfolding l by simp
  show ?thesis
    using burst_one_scan [OF b] b la by simp
qed

end
